theory Spec2Isabelle
  imports Main "HOL-Library.Word"
begin

unbundle bit_operations_syntax

section \<open>HSA handles and AQL packets (luthier/HSA/AqlPacket.h)\<close>

text \<open>
  Opaque HSA handles (\<^verbatim>\<open>hsa_loaded_code_object_t\<close>, \<^verbatim>\<open>hsa_executable_t\<close>,
  \<^verbatim>\<open>hsa_executable_symbol_t\<close>) are structs holding one \<^verbatim>\<open>uint64_t handle\<close>;
  device addresses (\<^verbatim>\<open>luthier::address_t\<close>) and \<^verbatim>\<open>size_t\<close> are 64-bit words.
\<close>

type_synonym u8 = "8 word"
type_synonym u16 = "16 word"
type_synonym u32 = "32 word"
type_synonym u64 = "64 word"
type_synonym address_t = u64
type_synonym hsa_loaded_code_object_t = u64
type_synonym hsa_executable_t = u64
type_synonym hsa_executable_symbol_t = u64

text \<open>
  The generic packet of \<^verbatim>\<open>struct AqlPacket\<close>: a 16-bit header followed by 62 bytes
  of user data.
\<close>

record AqlPacket =
  Header :: u16
  UserData :: "u8 list"

text \<open>
  Constants of \<^verbatim>\<open>hsa/hsa.h\<close> (the HSA runtime's header, which the repository only
  includes): the position and width of the type field of a packet header, and the
  enumerators of \<^verbatim>\<open>hsa_packet_type_t\<close>.
\<close>

definition HSA_PACKET_HEADER_TYPE :: nat where
  "HSA_PACKET_HEADER_TYPE = 0"

definition HSA_PACKET_HEADER_WIDTH_TYPE :: nat where
  "HSA_PACKET_HEADER_WIDTH_TYPE = 8"

type_synonym hsa_packet_type_t = u32

definition HSA_PACKET_TYPE_VENDOR_SPECIFIC :: hsa_packet_type_t where
  "HSA_PACKET_TYPE_VENDOR_SPECIFIC = 0"

definition HSA_PACKET_TYPE_INVALID :: hsa_packet_type_t where
  "HSA_PACKET_TYPE_INVALID = 1"

definition HSA_PACKET_TYPE_KERNEL_DISPATCH :: hsa_packet_type_t where
  "HSA_PACKET_TYPE_KERNEL_DISPATCH = 2"

definition HSA_PACKET_TYPE_BARRIER_AND :: hsa_packet_type_t where
  "HSA_PACKET_TYPE_BARRIER_AND = 3"

definition HSA_PACKET_TYPE_AGENT_DISPATCH :: hsa_packet_type_t where
  "HSA_PACKET_TYPE_AGENT_DISPATCH = 4"

definition HSA_PACKET_TYPE_BARRIER_OR :: hsa_packet_type_t where
  "HSA_PACKET_TYPE_BARRIER_OR = 5"

text \<open>
  \<^verbatim>\<open>getPacketType\<close>: the header is promoted to a 32-bit \<^verbatim>\<open>int\<close>, shifted right and
  masked with \<^verbatim>\<open>(1 << HSA_PACKET_HEADER_WIDTH_TYPE) - 1\<close>.
\<close>

definition getPacketType :: "AqlPacket \<Rightarrow> hsa_packet_type_t" where
  "getPacketType P =
     drop_bit HSA_PACKET_HEADER_TYPE (ucast (Header P) :: u32)
       AND (push_bit HSA_PACKET_HEADER_WIDTH_TYPE 1 - 1)"

text \<open>
  The typed accessors. Each returns a pointer to the packet's own storage,
  reinterpreted, or \<^verbatim>\<open>nullptr\<close>; the pointer is modelled by the packet it points
  at and \<^verbatim>\<open>nullptr\<close> by \<open>None\<close>. The const and non-const overloads have the same
  body.
\<close>

definition asAMDVendor :: "AqlPacket \<Rightarrow> AqlPacket option" where
  "asAMDVendor P =
     (if getPacketType P = HSA_PACKET_TYPE_VENDOR_SPECIFIC then Some P else None)"

definition asKernelDispatch :: "AqlPacket \<Rightarrow> AqlPacket option" where
  "asKernelDispatch P =
     (if getPacketType P = HSA_PACKET_TYPE_KERNEL_DISPATCH then Some P else None)"

definition asBarrierAnd :: "AqlPacket \<Rightarrow> AqlPacket option" where
  "asBarrierAnd P =
     (if getPacketType P = HSA_PACKET_TYPE_BARRIER_AND then Some P else None)"

definition asBarrierOr :: "AqlPacket \<Rightarrow> AqlPacket option" where
  "asBarrierOr P =
     (if getPacketType P = HSA_PACKET_TYPE_BARRIER_OR then Some P else None)"

definition asAgentDispatch :: "AqlPacket \<Rightarrow> AqlPacket option" where
  "asAgentDispatch P =
     (if getPacketType P = HSA_PACKET_TYPE_AGENT_DISPATCH then Some P else None)"

section \<open>Loaded code object symbols (luthier/HSA/LoadedCodeObjectSymbol.h)\<close>

datatype SymbolKind = SK_KERNEL | SK_DEVICE_FUNCTION | SK_VARIABLE | SK_EXTERNAL

text \<open>
  \<^verbatim>\<open>llvm::object::ELFSymbolRef\<close> (LLVM, consumed as a library): a \<^verbatim>\<open>DataRefImpl\<close>,
  which is a union of the pointer-sized \<^verbatim>\<open>p\<close> and the pair of 32-bit words
  \<^verbatim>\<open>d.a\<close>, \<^verbatim>\<open>d.b\<close>, together with the owning object file. The union is kept as its
  8 raw bytes; on the little-endian 64-bit hosts that ROCm supports \<^verbatim>\<open>d.a\<close> is the
  low and \<^verbatim>\<open>d.b\<close> the high half of \<^verbatim>\<open>p\<close>. LLVM compares two symbol references by
  comparing the raw bytes of their \<^verbatim>\<open>DataRefImpl\<close>.
\<close>

record ELFSymbolRef =
  SymbolPimpl :: u64
  OwningObject :: u64

definition Raw_p :: "ELFSymbolRef \<Rightarrow> u64" where
  "Raw_p r = SymbolPimpl r"

definition Raw_d_a :: "ELFSymbolRef \<Rightarrow> u32" where
  "Raw_d_a r = ucast (SymbolPimpl r)"

definition Raw_d_b :: "ELFSymbolRef \<Rightarrow> u32" where
  "Raw_d_b r = ucast (drop_bit 32 (SymbolPimpl r))"

definition ELFSymbolRef_eq :: "ELFSymbolRef \<Rightarrow> ELFSymbolRef \<Rightarrow> bool" where
  "ELFSymbolRef_eq a b = (SymbolPimpl a = SymbolPimpl b)"

text \<open>
  The fields of \<^verbatim>\<open>class LoadedCodeObjectSymbol\<close>. \<^verbatim>\<open>StorageELF\<close> is a C++
  reference, kept as the address of the object file it refers to.
\<close>

record LoadedCodeObjectSymbol =
  BackingLCO :: hsa_loaded_code_object_t
  StorageELF :: u64
  Symbol :: ELFSymbolRef
  Kind :: SymbolKind
  ExecutableSymbol :: "hsa_executable_symbol_t option"

text \<open>\<^verbatim>\<open>clone()\<close>: a new symbol constructed from the five fields of this one.\<close>

definition clone :: "LoadedCodeObjectSymbol \<Rightarrow> LoadedCodeObjectSymbol" where
  "clone this =
     \<lparr>BackingLCO = BackingLCO this, StorageELF = StorageELF this,
      Symbol = Symbol this, Kind = Kind this,
      ExecutableSymbol = ExecutableSymbol this\<rparr>"

text \<open>\<^verbatim>\<open>operator==\<close>.\<close>

definition symbol_eq :: "LoadedCodeObjectSymbol \<Rightarrow> LoadedCodeObjectSymbol \<Rightarrow> bool" where
  "symbol_eq this Other =
     (let Out = (ELFSymbolRef_eq (Symbol this) (Symbol Other) \<and>
                 BackingLCO this = BackingLCO Other \<and>
                 Kind this = Kind Other)
      in case ExecutableSymbol this of
           Some h \<Rightarrow>
             Out \<and> (case ExecutableSymbol Other of
                      Some h' \<Rightarrow> h = h'
                    | None \<Rightarrow> False)
         | None \<Rightarrow> Out \<and> ExecutableSymbol Other = None)"

text \<open>
  \<^verbatim>\<open>hash()\<close>. \<^verbatim>\<open>llvm::hash_combine\<close> belongs to LLVM and is a parameter: any function
  of the six values it is given.
\<close>

type_synonym hash_combine_t = "u64 \<Rightarrow> u64 \<Rightarrow> u32 \<Rightarrow> u32 \<Rightarrow> SymbolKind \<Rightarrow> u64 \<Rightarrow> u64"

definition hash :: "hash_combine_t \<Rightarrow> LoadedCodeObjectSymbol \<Rightarrow> u64" where
  "hash hash_combine this =
     (let Raw = Symbol this
      in hash_combine (BackingLCO this) (Raw_p Raw) (Raw_d_a Raw) (Raw_d_b Raw)
           (Kind this)
           (case ExecutableSymbol this of Some h \<Rightarrow> h | None \<Rightarrow> 0))"

text \<open>
  \<^verbatim>\<open>LoadedCodeObjectSymbolEqualTo\<close> and \<^verbatim>\<open>LoadedCodeObjectSymbolHash\<close> on possibly
  null pointers (\<open>None\<close>): two null pointers are equal, a null and a non-null pointer
  are not, and the hash of a null pointer is \<^verbatim>\<open>llvm::hash_value(nullptr)\<close>, the
  parameter \<open>hash_null\<close>.
\<close>

fun LoadedCodeObjectSymbolEqualTo ::
  "LoadedCodeObjectSymbol option \<Rightarrow> LoadedCodeObjectSymbol option \<Rightarrow> bool" where
  "LoadedCodeObjectSymbolEqualTo (Some Lhs) (Some Rhs) = symbol_eq Lhs Rhs"
| "LoadedCodeObjectSymbolEqualTo None None = True"
| "LoadedCodeObjectSymbolEqualTo _ _ = False"

fun LoadedCodeObjectSymbolHash ::
  "hash_combine_t \<Rightarrow> u64 \<Rightarrow> LoadedCodeObjectSymbol option \<Rightarrow> u64" where
  "LoadedCodeObjectSymbolHash hash_combine hash_null (Some S) = hash hash_combine S"
| "LoadedCodeObjectSymbolHash hash_combine hash_null None = hash_null"

section \<open>The tool executable loader's preset map (luthier/Tooling/ToolExecutableLoader.h)\<close>

text \<open>
  \<^verbatim>\<open>llvm::StringMap::insert\<close> and \<^verbatim>\<open>llvm::DenseSet::insert\<close> (LLVM containers): the
  pair is stored only when the key is not in the map yet; an existing entry is
  kept as it is.
\<close>

definition StringMap_insert :: "(string \<rightharpoonup> 'v) \<Rightarrow> string \<Rightarrow> 'v \<Rightarrow> (string \<rightharpoonup> 'v)" where
  "StringMap_insert m k v = (case m k of None \<Rightarrow> m(k \<mapsto> v) | Some _ \<Rightarrow> m)"

definition DenseSet_insert :: "'a \<Rightarrow> 'a set \<Rightarrow> 'a set" where
  "DenseSet_insert x s = insert x s"

text \<open>
  The three maps of \<^verbatim>\<open>class ToolExecutableLoader\<close>. The kernel metadata type
  \<^verbatim>\<open>amdgpu::hsamd::Kernel::Metadata\<close> is declared elsewhere and stays a type
  parameter.
\<close>

record 'md ToolExecutableLoader =
  InstrumentedKernelMetadata :: "hsa_executable_symbol_t \<rightharpoonup> 'md"
  OriginalExecutablesWithKernelsInstrumented :: "hsa_executable_t \<rightharpoonup> hsa_executable_t set"
  OriginalToInstrumentedKernelsMap ::
    "hsa_executable_symbol_t \<rightharpoonup> (string \<rightharpoonup> hsa_executable_symbol_t)"

text \<open>
  \<^verbatim>\<open>insertInstrumentedKernelIntoMap\<close>: find or create the entry of the original
  kernel, insert the preset into it, find or create the entry of the original
  executable, insert the instrumented executable into it.
\<close>

definition insertInstrumentedKernelIntoMap ::
  "hsa_executable_t \<Rightarrow> hsa_executable_symbol_t \<Rightarrow> string \<Rightarrow> hsa_executable_t \<Rightarrow>
   hsa_executable_symbol_t \<Rightarrow> 'md ToolExecutableLoader \<Rightarrow> 'md ToolExecutableLoader" where
  "insertInstrumentedKernelIntoMap OriginalExecutable OriginalKernel Preset
       InstrumentedExecutable InstrumentedKernel this =
     (let M = OriginalToInstrumentedKernelsMap this;
          OriginalKernelEntry =
            (case M OriginalKernel of None \<Rightarrow> Map.empty | Some e \<Rightarrow> e);
          M' = M(OriginalKernel \<mapsto>
                   StringMap_insert OriginalKernelEntry Preset InstrumentedKernel);
          X = OriginalExecutablesWithKernelsInstrumented this;
          OriginalExecutableEntry =
            (case X OriginalExecutable of None \<Rightarrow> {} | Some s \<Rightarrow> s);
          X' = X(OriginalExecutable \<mapsto>
                   DenseSet_insert InstrumentedExecutable OriginalExecutableEntry)
      in this\<lparr>OriginalExecutablesWithKernelsInstrumented := X',
               OriginalToInstrumentedKernelsMap := M'\<rparr>)"

text \<open>
  A registration request, as \<^verbatim>\<open>loadInstrumentedKernel\<close> passes it on: original
  executable, original kernel, preset, instrumented executable, instrumented
  kernel. \<open>registerAll\<close> performs a sequence of them in order.
\<close>

type_synonym registration =
  "hsa_executable_t \<times> hsa_executable_symbol_t \<times> string \<times> hsa_executable_t \<times>
   hsa_executable_symbol_t"

fun registerAll :: "registration list \<Rightarrow> 'md ToolExecutableLoader \<Rightarrow> 'md ToolExecutableLoader" where
  "registerAll [] this = this"
| "registerAll ((OE, OK, P, IE, IK) # rs) this =
     registerAll rs (insertInstrumentedKernelIntoMap OE OK P IE IK this)"

text \<open>
  The kinds of error that the core returns, one constructor per kind (an
  invariant violation aborts the process and is never returned).
\<close>

datatype error =
  RuntimeError | TargetError | DecodeError | LiftError | LoweringError |
  CodegenError | LoaderError | CacheMiss

text \<open>
  The entry of the preset map for an original kernel and a preset: the symbol
  that \<^verbatim>\<open>getInstrumentedKernel\<close> reports for the pair and whose presence
  \<^verbatim>\<open>isKernelInstrumented\<close> reports, \<open>None\<close> when the pair is not registered.
\<close>

definition instrumentedKernelOf ::
  "'md ToolExecutableLoader \<Rightarrow> hsa_executable_symbol_t \<Rightarrow> string \<Rightarrow>
   hsa_executable_symbol_t option" where
  "instrumentedKernelOf this OriginalKernel Preset =
     (case OriginalToInstrumentedKernelsMap this OriginalKernel of
        None \<Rightarrow> None
      | Some e \<Rightarrow> e Preset)"

section \<open>The code lifter's disassembly (luthier/Tooling/CodeLifter.h)\<close>

text \<open>
  \<^verbatim>\<open>llvm::MCInst\<close> (LLVM): an opcode and operands. \<^verbatim>\<open>hsa::Instr\<close>: the instruction,
  the device address it is loaded at, the symbol it belongs to and its size
  (the fields \<^verbatim>\<open>Symbol\<close> and \<^verbatim>\<open>Size\<close> are \<open>InstrSymbol\<close> and \<open>InstrSize\<close> here).
\<close>

record MCInst =
  Opcode :: nat
  Operands :: "u64 list"

record Instr =
  Inst :: MCInst
  LoadedDeviceAddress :: address_t
  InstrSymbol :: LoadedCodeObjectSymbol
  InstrSize :: u64

text \<open>
  An \<^verbatim>\<open>llvm::ArrayRef<uint8_t>\<close> over device memory: the address of its first byte
  and its length.
\<close>

record DeviceArrayRef =
  ArrayRef_data :: address_t
  ArrayRef_size :: u64

type_synonym hsa_isa_t = u64

text \<open>
  The collaborators that \<^verbatim>\<open>CodeLifter::disassemble\<close> calls and whose bodies lie
  outside the sources (the code-object cache, the object-file helpers, the HSA
  runtime, the LLVM MC disassembler, the target manager, LLVM's instruction
  descriptions and the lifter's own \<^verbatim>\<open>evaluateBranch\<close>): parameters, each with
  the result type of its declaration. A parsed object file and a target
  description are referred to by their addresses. The backend disassembler
  \<^verbatim>\<open>disassemble(ISA, Code)\<close> returns the instructions and, in a second vector,
  the start address of each of them. \<^verbatim>\<open>evaluateBranch\<close> returns \<^verbatim>\<open>true\<close> and sets
  the target (\<open>Some\<close>), or returns \<^verbatim>\<open>false\<close> (\<open>None\<close>).
\<close>

record Services =
  getAssociatedObjectFile :: "hsa_loaded_code_object_t \<Rightarrow> error + u64"
  getObjectFileTargetTuple :: "u64 \<Rightarrow> error + (string \<times> string \<times> string)"
  isaFromLLVM :: "string \<Rightarrow> string \<Rightarrow> string \<Rightarrow> error + hsa_isa_t"
  getLoadedSymbolContents :: "LoadedCodeObjectSymbol \<Rightarrow> error + DeviceArrayRef"
  convertToHostEquivalent :: "DeviceArrayRef \<Rightarrow> error + u8 list"
  disassembleCode :: "hsa_isa_t \<Rightarrow> u8 list \<Rightarrow> error + (MCInst list \<times> address_t list)"
  getTargetInfo :: "hsa_isa_t \<Rightarrow> error + u64"
  isBranch :: "u64 \<Rightarrow> nat \<Rightarrow> bool"
  evaluateBranch :: "MCInst \<Rightarrow> u64 \<Rightarrow> u64 \<Rightarrow> address_t option"

text \<open>
  The caches of \<^verbatim>\<open>class CodeLifter\<close>. The two \<^verbatim>\<open>std::unordered_map\<close>s keyed by
  symbols are association lists searched with the symbols' \<^verbatim>\<open>operator==\<close>, which
  is what \<^verbatim>\<open>LoadedCodeObjectSymbolEqualTo\<close> applies to non-null pointers. A lifted
  representation and a relocation entry are type parameters.
\<close>

record ('lr, 'rel) CodeLifter =
  MCDisassembledSymbols :: "(LoadedCodeObjectSymbol \<times> Instr list) list"
  DirectBranchTargetLocations :: "hsa_loaded_code_object_t \<rightharpoonup> address_t set"
  Relocations :: "hsa_loaded_code_object_t \<rightharpoonup> (address_t \<rightharpoonup> 'rel)"
  LiftedKernelSymbols :: "(LoadedCodeObjectSymbol \<times> 'lr) list"

fun find_symbol :: "(LoadedCodeObjectSymbol \<times> 'v) list \<Rightarrow> LoadedCodeObjectSymbol \<Rightarrow> 'v option" where
  "find_symbol [] S = None"
| "find_symbol ((k, v) # rest) S = (if symbol_eq k S then Some v else find_symbol rest S)"

definition contains :: "(LoadedCodeObjectSymbol \<times> 'v) list \<Rightarrow> LoadedCodeObjectSymbol \<Rightarrow> bool" where
  "contains m S = (find_symbol m S \<noteq> None)"

text \<open>\<^verbatim>\<open>emplace\<close>: a new entry unless the key is present.\<close>

definition emplace ::
  "(LoadedCodeObjectSymbol \<times> 'v) list \<Rightarrow> LoadedCodeObjectSymbol \<Rightarrow> 'v \<Rightarrow>
   (LoadedCodeObjectSymbol \<times> 'v) list" where
  "emplace m k v = (if contains m k then m else m @ [(k, v)])"

text \<open>
  \<^verbatim>\<open>Out->push_back\<close>, where \<^verbatim>\<open>Out\<close> refers to the vector stored in the cache entry
  of the symbol: the record is appended to that entry in place.
\<close>

fun push_back_Out ::
  "LoadedCodeObjectSymbol \<Rightarrow> Instr \<Rightarrow> (LoadedCodeObjectSymbol \<times> Instr list) list \<Rightarrow>
   (LoadedCodeObjectSymbol \<times> Instr list) list" where
  "push_back_Out S r [] = []"
| "push_back_Out S r ((k, v) # rest) =
     (if symbol_eq k S then (k, v @ [r]) # rest else (k, v) # push_back_Out S r rest)"

text \<open>
  Modelled from the spec: the body of \<^verbatim>\<open>CodeLifter::addDirectBranchTargetAddress\<close>
  is not in the sources (its declaration and doc comment are). It records the
  address in the Direct-Branch Target Set of the loaded code object, creating
  the set when the code object has none.
\<close>

definition addDirectBranchTargetAddress ::
  "hsa_loaded_code_object_t \<Rightarrow> address_t \<Rightarrow> ('lr, 'rel) CodeLifter \<Rightarrow> ('lr, 'rel) CodeLifter" where
  "addDirectBranchTargetAddress LCO Address this =
     this\<lparr>DirectBranchTargetLocations :=
       (DirectBranchTargetLocations this)
         (LCO \<mapsto> insert Address
            (case DirectBranchTargetLocations this LCO of None \<Rightarrow> {} | Some s \<Rightarrow> s))\<rparr>"

text \<open>
  The loop of \<^verbatim>\<open>disassemble\<close> over the decoded instructions, from index \<open>I\<close> on:
  \<^verbatim>\<open>Address = Addresses[I] + BaseLoadedAddress\<close>,
  \<^verbatim>\<open>Size = Address - PrevInstAddress\<close>, the branch test and evaluation, then
  \<^verbatim>\<open>PrevInstAddress = Address\<close> and the \<^verbatim>\<open>push_back\<close> of the record. The two
  vectors are traversed together; reading \<^verbatim>\<open>Addresses[I]\<close> past its end is
  undefined in C++ and ends the traversal here.
\<close>

fun disassembleLoop ::
  "Services \<Rightarrow> u64 \<Rightarrow> LoadedCodeObjectSymbol \<Rightarrow> hsa_loaded_code_object_t \<Rightarrow> address_t \<Rightarrow>
   MCInst list \<Rightarrow> address_t list \<Rightarrow> address_t \<Rightarrow> ('lr, 'rel) CodeLifter \<Rightarrow>
   ('lr, 'rel) CodeLifter" where
  "disassembleLoop sv TargetInfo Sym LCO BaseLoadedAddress [] Addresses
       PrevInstAddress this = this"
| "disassembleLoop sv TargetInfo Sym LCO BaseLoadedAddress (I # Instructions) []
       PrevInstAddress this = this"
| "disassembleLoop sv TargetInfo Sym LCO BaseLoadedAddress (I # Instructions)
       (A # Addresses) PrevInstAddress this =
     (let Address = A + BaseLoadedAddress;
          Size = Address - PrevInstAddress;
          this1 =
            (if isBranch sv TargetInfo (Opcode I) then
               (case evaluateBranch sv I Address Size of
                  Some Target \<Rightarrow> addDirectBranchTargetAddress LCO Target this
                | None \<Rightarrow> this)
             else this);
          this2 = this1\<lparr>MCDisassembledSymbols :=
                    push_back_Out Sym
                      \<lparr>Inst = I, LoadedDeviceAddress = Address, InstrSymbol = Sym,
                       InstrSize = Size\<rparr>
                      (MCDisassembledSymbols this1)\<rparr>
      in disassembleLoop sv TargetInfo Sym LCO BaseLoadedAddress Instructions
           Addresses Address this2)"

text \<open>
  \<^verbatim>\<open>CodeLifter::disassemble(const ST &Symbol)\<close>, for a kernel or a device function
  symbol. Every \<^verbatim>\<open>LUTHIER_RETURN_ON_ERROR\<close> returns the callee's error with the
  lifter as it is at that point. The result is the vector found under the symbol
  in the cache.
\<close>

definition disassemble ::
  "Services \<Rightarrow> LoadedCodeObjectSymbol \<Rightarrow> ('lr, 'rel) CodeLifter \<Rightarrow>
   (error + Instr list) \<times> ('lr, 'rel) CodeLifter" where
  "disassemble sv Sym this =
     (if \<not> contains (MCDisassembledSymbols this) Sym then
        (let LCO = BackingLCO Sym in
         case getAssociatedObjectFile sv LCO of
           Inl e \<Rightarrow> (Inl e, this)
         | Inr ObjFile \<Rightarrow>
         (case getObjectFileTargetTuple sv ObjFile of
           Inl e \<Rightarrow> (Inl e, this)
         | Inr (Triple, CPU, Features) \<Rightarrow>
         (case isaFromLLVM sv Triple CPU Features of
           Inl e \<Rightarrow> (Inl e, this)
         | Inr ISA \<Rightarrow>
         (case getLoadedSymbolContents sv Sym of
           Inl e \<Rightarrow> (Inl e, this)
         | Inr MachineCodeOnDevice \<Rightarrow>
         (case convertToHostEquivalent sv MachineCodeOnDevice of
           Inl e \<Rightarrow> (Inl e, this)
         | Inr MachineCodeOnHost \<Rightarrow>
         (case disassembleCode sv ISA MachineCodeOnHost of
           Inl e \<Rightarrow> (Inl e, this)
         | Inr (Instructions, Addresses) \<Rightarrow>
         (let this1 = this\<lparr>MCDisassembledSymbols :=
                        emplace (MCDisassembledSymbols this) (clone Sym) []\<rparr> in
          case getTargetInfo sv ISA of
            Inl e \<Rightarrow> (Inl e, this1)
          | Inr TargetInfo \<Rightarrow>
          (let BaseLoadedAddress = ArrayRef_data MachineCodeOnDevice;
               this2 = disassembleLoop sv TargetInfo Sym LCO BaseLoadedAddress
                         Instructions Addresses BaseLoadedAddress this1
           in (Inr (the (find_symbol (MCDisassembledSymbols this2) Sym)), this2)))))))))
      else (Inr (the (find_symbol (MCDisassembledSymbols this) Sym)), this))"

text \<open>
  The records that the loop appends, as a list: an auxiliary function used to
  state what \<open>disassembleLoop\<close> leaves in the cache.
\<close>

fun loopRecords ::
  "LoadedCodeObjectSymbol \<Rightarrow> address_t \<Rightarrow> MCInst list \<Rightarrow> address_t list \<Rightarrow> address_t \<Rightarrow>
   Instr list" where
  "loopRecords Sym BaseLoadedAddress [] Addresses PrevInstAddress = []"
| "loopRecords Sym BaseLoadedAddress (I # Instructions) [] PrevInstAddress = []"
| "loopRecords Sym BaseLoadedAddress (I # Instructions) (A # Addresses) PrevInstAddress =
     \<lparr>Inst = I, LoadedDeviceAddress = A + BaseLoadedAddress, InstrSymbol = Sym,
      InstrSize = A + BaseLoadedAddress - PrevInstAddress\<rparr>
       # loopRecords Sym BaseLoadedAddress Instructions Addresses (A + BaseLoadedAddress)"

text \<open>
  The Direct-Branch Target Set of a loaded code object (empty when the map has
  no entry for it), and the targets that the branch test and the evaluator give
  for a list of instruction records.
\<close>

definition targetSet :: "('lr, 'rel) CodeLifter \<Rightarrow> hsa_loaded_code_object_t \<Rightarrow> address_t set" where
  "targetSet this LCO =
     (case DirectBranchTargetLocations this LCO of None \<Rightarrow> {} | Some s \<Rightarrow> s)"

definition evaluatedTarget :: "Services \<Rightarrow> u64 \<Rightarrow> Instr \<Rightarrow> address_t option" where
  "evaluatedTarget sv TargetInfo r =
     (if isBranch sv TargetInfo (Opcode (Inst r))
      then evaluateBranch sv (Inst r) (LoadedDeviceAddress r) (InstrSize r)
      else None)"

definition branchTargets :: "Services \<Rightarrow> u64 \<Rightarrow> Instr list \<Rightarrow> address_t set" where
  "branchTargets sv TargetInfo rs = {T. \<exists>r \<in> set rs. evaluatedTarget sv TargetInfo r = Some T}"

section \<open>Lifting (luthier/Tooling/CodeLifter.h, luthier/Tooling/LiftedRepresentation.h)\<close>

text \<open>
  Modelled from the spec: part of the body of \<^verbatim>\<open>CodeLifter::lift\<close>, which is not in
  the sources. The functions of a kernel's lifted representation are
  disassembled one after the other, each with \<open>disassemble\<close>; the first error
  ends the walk and is returned.
\<close>

fun disassembleAll ::
  "Services \<Rightarrow> LoadedCodeObjectSymbol list \<Rightarrow> ('lr, 'rel) CodeLifter \<Rightarrow>
   (error + (LoadedCodeObjectSymbol \<times> Instr list) list) \<times> ('lr, 'rel) CodeLifter" where
  "disassembleAll sv [] this = (Inr [], this)"
| "disassembleAll sv (F # Fs) this =
     (case disassemble sv F this of
        (Inl e, this1) \<Rightarrow> (Inl e, this1)
      | (Inr rs, this1) \<Rightarrow>
          (case disassembleAll sv Fs this1 of
             (Inl e, this2) \<Rightarrow> (Inl e, this2)
           | (Inr rest, this2) \<Rightarrow> (Inr ((F, rs) # rest), this2)))"

text \<open>
  Modelled from the spec: the body of \<^verbatim>\<open>CodeLifter::lift\<close> is not in the sources
  (its declaration and doc comment are). A kernel found in the lift cache is
  returned from it. Otherwise the kernel and every device function of its loaded
  code object (\<open>deviceFunctions\<close>) are disassembled, the lifted representation
  is built from their instruction records (\<open>buildLR\<close>, the construction of the
  module and the machine functions, which may fail), inserted into the lift
  cache under a clone of the kernel symbol, and returned.
\<close>

definition lift ::
  "Services \<Rightarrow> (LoadedCodeObjectSymbol \<Rightarrow> LoadedCodeObjectSymbol list) \<Rightarrow>
   (LoadedCodeObjectSymbol \<Rightarrow> (LoadedCodeObjectSymbol \<times> Instr list) list \<Rightarrow> error + 'lr) \<Rightarrow>
   LoadedCodeObjectSymbol \<Rightarrow> ('lr, 'rel) CodeLifter \<Rightarrow> (error + 'lr) \<times> ('lr, 'rel) CodeLifter" where
  "lift sv deviceFunctions buildLR KernelSymbol this =
     (case find_symbol (LiftedKernelSymbols this) KernelSymbol of
        Some LR \<Rightarrow> (Inr LR, this)
      | None \<Rightarrow>
          (case disassembleAll sv (KernelSymbol # deviceFunctions KernelSymbol) this of
             (Inl e, this1) \<Rightarrow> (Inl e, this1)
           | (Inr records, this1) \<Rightarrow>
               (case buildLR KernelSymbol records of
                  Inl e \<Rightarrow> (Inl e, this1)
                | Inr LR \<Rightarrow>
                    (let this2 = this1\<lparr>LiftedKernelSymbols :=
                                   emplace (LiftedKernelSymbols this1) (clone KernelSymbol) LR\<rparr>
                     in (Inr (the (find_symbol (LiftedKernelSymbols this2) KernelSymbol)),
                         this2)))))"

text \<open>
  Later calls on the lifter, each with the collaborators it runs with:
  \<open>performCalls\<close> runs a sequence of them and keeps the lifter they leave.
\<close>

datatype 'lr call =
  Disassemble Services LoadedCodeObjectSymbol
| Lift Services "LoadedCodeObjectSymbol \<Rightarrow> LoadedCodeObjectSymbol list"
    "LoadedCodeObjectSymbol \<Rightarrow> (LoadedCodeObjectSymbol \<times> Instr list) list \<Rightarrow> error + 'lr"
    LoadedCodeObjectSymbol

fun performCall :: "'lr call \<Rightarrow> ('lr, 'rel) CodeLifter \<Rightarrow> ('lr, 'rel) CodeLifter" where
  "performCall (Disassemble sv S) this = snd (disassemble sv S this)"
| "performCall (Lift sv deviceFunctions buildLR K) this =
     snd (lift sv deviceFunctions buildLR K this)"

fun performCalls :: "'lr call list \<Rightarrow> ('lr, 'rel) CodeLifter \<Rightarrow> ('lr, 'rel) CodeLifter" where
  "performCalls [] this = this"
| "performCalls (c # cs) this = performCalls cs (performCall c this)"

section \<open>The code-object cache and cache invalidation (luthier/HSA/LoadedCodeObjectCache.h)\<close>

text \<open>\<^verbatim>\<open>struct LCOCacheEntry\<close> and the map \<^verbatim>\<open>LCOCache\<close> of the cache.\<close>

record LCOCacheEntry =
  CodeObject :: "u8 list"
  ParsedELF :: u64

record LoadedCodeObjectCache =
  LCOCache :: "hsa_loaded_code_object_t \<rightharpoonup> LCOCacheEntry"

text \<open>
  Modelled from the spec: the body of \<^verbatim>\<open>LoadedCodeObjectCache::isCached\<close> is not in
  the sources (its declaration is). A loaded code object is cached when the map
  has an entry for it.
\<close>

definition isCached :: "LoadedCodeObjectCache \<Rightarrow> hsa_loaded_code_object_t \<Rightarrow> bool" where
  "isCached this LCO = (LCOCache this LCO \<noteq> None)"

text \<open>
  Modelled from the spec: the body of
  \<^verbatim>\<open>LoadedCodeObjectCache::getAssociatedCodeObject\<close> is not in the sources (its
  declaration is). The query returns the bytes of the entry and fails with a
  cache-miss error when the loaded code object has no entry.
\<close>

definition getAssociatedCodeObject ::
  "LoadedCodeObjectCache \<Rightarrow> hsa_loaded_code_object_t \<Rightarrow> error + u8 list" where
  "getAssociatedCodeObject this LCO =
     (case LCOCache this LCO of None \<Rightarrow> Inl CacheMiss | Some e \<Rightarrow> Inr (CodeObject e))"

text \<open>
  Modelled from the spec: the body of
  \<^verbatim>\<open>LoadedCodeObjectCache::getAssociatedObjectFile\<close> is not in the sources (its
  declaration is). The query returns the parsed ELF of the entry and fails with
  a cache-miss error when the loaded code object has no entry.
\<close>

definition LoadedCodeObjectCache_getAssociatedObjectFile ::
  "LoadedCodeObjectCache \<Rightarrow> hsa_loaded_code_object_t \<Rightarrow> error + u64" where
  "LoadedCodeObjectCache_getAssociatedObjectFile this LCO =
     (case LCOCache this LCO of None \<Rightarrow> Inl CacheMiss | Some e \<Rightarrow> Inr (ParsedELF e))"

text \<open>
  Modelled from the spec: the body of
  \<^verbatim>\<open>LoadedCodeObjectCache::hsaExecutableDestroyWrapper\<close> is not in the sources. It
  invalidates all loaded code objects that belong to the executable;
  \<open>executableOf\<close> is the runtime's assignment of loaded code objects to
  executables.
\<close>

definition hsaExecutableDestroyWrapper ::
  "(hsa_loaded_code_object_t \<Rightarrow> hsa_executable_t) \<Rightarrow> hsa_executable_t \<Rightarrow>
   LoadedCodeObjectCache \<Rightarrow> LoadedCodeObjectCache" where
  "hsaExecutableDestroyWrapper executableOf Executable this =
     this\<lparr>LCOCache :=
       (\<lambda>LCO. if executableOf LCO = Executable then None else LCOCache this LCO)\<rparr>"

text \<open>
  Modelled from the spec: the body of \<^verbatim>\<open>CodeLifter::invalidateCachedExecutableItems\<close>
  is not in the sources (its declaration and doc comment are). Every cached item
  related to the executable is removed: the disassembly and lift cache entries of
  the symbols of its loaded code objects, and the branch targets and relocations
  kept for these code objects.
\<close>

definition invalidateCachedExecutableItems ::
  "(hsa_loaded_code_object_t \<Rightarrow> hsa_executable_t) \<Rightarrow> hsa_executable_t \<Rightarrow>
   ('lr, 'rel) CodeLifter \<Rightarrow> ('lr, 'rel) CodeLifter" where
  "invalidateCachedExecutableItems executableOf Exec this =
     \<lparr>MCDisassembledSymbols =
        filter (\<lambda>(k, v). executableOf (BackingLCO k) \<noteq> Exec) (MCDisassembledSymbols this),
      DirectBranchTargetLocations =
        (\<lambda>LCO. if executableOf LCO = Exec then None else DirectBranchTargetLocations this LCO),
      Relocations =
        (\<lambda>LCO. if executableOf LCO = Exec then None else Relocations this LCO),
      LiftedKernelSymbols =
        filter (\<lambda>(k, v). executableOf (BackingLCO k) \<noteq> Exec) (LiftedKernelSymbols this)\<rparr>"

text \<open>The code-object cache and the code lifter together.\<close>

record ('lr, 'rel) Core =
  CodeObjectCache :: LoadedCodeObjectCache
  Lifter :: "('lr, 'rel) CodeLifter"

text \<open>
  Modelled from the spec: the executable-destroy callback, whose code is not in
  the sources, as the two components see it: the cache's wrapper invalidates the
  loaded code objects of the executable and the lifter drops its cached items.
\<close>

definition executableDestroyCallback ::
  "(hsa_loaded_code_object_t \<Rightarrow> hsa_executable_t) \<Rightarrow> hsa_executable_t \<Rightarrow>
   ('lr, 'rel) Core \<Rightarrow> ('lr, 'rel) Core" where
  "executableDestroyCallback executableOf Executable core =
     \<lparr>CodeObjectCache =
        hsaExecutableDestroyWrapper executableOf Executable (CodeObjectCache core),
      Lifter = invalidateCachedExecutableItems executableOf Executable (Lifter core)\<rparr>"

text \<open>
  The collaborators of \<open>disassemble\<close> with the object-file query answered by the
  code-object cache, as \<^verbatim>\<open>LoadedCodeObjectCache::instance()\<close> answers it.
\<close>

definition withCache :: "Services \<Rightarrow> LoadedCodeObjectCache \<Rightarrow> Services" where
  "withCache sv coc =
     sv\<lparr>getAssociatedObjectFile := LoadedCodeObjectCache_getAssociatedObjectFile coc\<rparr>"

section \<open>Instrumentation tasks (luthier/Tooling/InstrumentationTask.h)\<close>

text \<open>
  A machine instruction is identified by its address (\<^verbatim>\<open>llvm::MachineInstr *\<close>). A
  hook argument is an IR constant or a physical register; a descriptor is the
  hook's name with its arguments; \<^verbatim>\<open>hook_insertion_tasks\<close> maps a machine
  instruction to its queue of descriptors.
\<close>

type_synonym MachineInstr = u64

datatype hook_arg = ConstantArg u64 | RegisterArg nat

record hook_invocation_descriptor =
  HookName :: string
  Args :: "hook_arg list"

type_synonym hook_insertion_tasks = "MachineInstr \<rightharpoonup> hook_invocation_descriptor list"

text \<open>
  The machine code of a lifted function as a sequence of original machine
  instructions and, once hooks are materialised, call sites of hooks.
\<close>

datatype MIR = Original MachineInstr | HookCall hook_invocation_descriptor

text \<open>
  The task: the lifted representation being instrumented (its machine
  instructions), the instrumentation module (its map from hook handles to hook
  names) and the queued insertions.
\<close>

record InstrumentationTask =
  LR :: "MachineInstr set"
  IM :: "u64 \<rightharpoonup> string"
  HookInsertionTasks :: hook_insertion_tasks

text \<open>
  Modelled from the spec: the body of \<^verbatim>\<open>InstrumentationTask::insertHookBefore\<close> is
  not in the sources (its declaration and doc comment are). It validates that the
  instruction belongs to the task's lifted representation, resolves the hook
  handle through the instrumentation module to a hook name, appends a descriptor
  to the queue of the instruction, and returns. Which error a failed check
  returns is not stated; a lowering error stands for it.
\<close>

definition insertHookBefore ::
  "MachineInstr \<Rightarrow> u64 \<Rightarrow> hook_arg list \<Rightarrow> InstrumentationTask \<Rightarrow>
   (error + unit) \<times> InstrumentationTask" where
  "insertHookBefore MI Hook HookArgs this =
     (if MI \<notin> LR this then (Inl LoweringError, this)
      else case IM this Hook of
             None \<Rightarrow> (Inl LoweringError, this)
           | Some Name \<Rightarrow>
               (Inr (),
                this\<lparr>HookInsertionTasks :=
                  (HookInsertionTasks this)
                    (MI \<mapsto> (case HookInsertionTasks this MI of None \<Rightarrow> [] | Some q \<Rightarrow> q)
                            @ [\<lparr>HookName = Name, Args = HookArgs\<rparr>])\<rparr>))"

text \<open>
  Modelled from the spec: the code generator's materialisation of hook calls is
  not in the sources. For a queued insertion a call site of the hook is created
  immediately before the target machine instruction; nothing is created when the
  instruction is not in the code.
\<close>

fun insertCallBefore :: "MachineInstr \<Rightarrow> hook_invocation_descriptor \<Rightarrow> MIR list \<Rightarrow> MIR list" where
  "insertCallBefore MI d [] = []"
| "insertCallBefore MI d (x # body) =
     (if x = Original MI then HookCall d # x # body else x # insertCallBefore MI d body)"

text \<open>
  Modelled from the spec: the queued insertions of one machine instruction are
  materialised one after the other, in the order of its queue.
\<close>

definition materialiseQueue ::
  "MachineInstr \<Rightarrow> hook_invocation_descriptor list \<Rightarrow> MIR list \<Rightarrow> MIR list" where
  "materialiseQueue MI q body = fold (insertCallBefore MI) q body"

text \<open>
  Modelled from the spec: every queued insertion of the task is materialised;
  \<open>order\<close> is the order in which the instructions of the task are visited (the
  iteration order of the \<^verbatim>\<open>llvm::DenseMap\<close>).
\<close>

definition materialiseHooks :: "MachineInstr list \<Rightarrow> hook_insertion_tasks \<Rightarrow> MIR list \<Rightarrow> MIR list" where
  "materialiseHooks order tasks body =
     fold (\<lambda>MI. materialiseQueue MI (case tasks MI of None \<Rightarrow> [] | Some q \<Rightarrow> q)) order body"

text \<open>
  The queue of a machine instruction (empty when the task has none for it), and
  the code with the calls of \<open>Q\<close> placed before each original instruction:
  auxiliary functions used to state what materialisation produces.
\<close>

definition queueOf :: "hook_insertion_tasks \<Rightarrow> MachineInstr \<Rightarrow> hook_invocation_descriptor list" where
  "queueOf tasks MI = (case tasks MI of None \<Rightarrow> [] | Some q \<Rightarrow> q)"

fun withCallsBefore :: "(MachineInstr \<Rightarrow> hook_invocation_descriptor list) \<Rightarrow> MIR list \<Rightarrow> MIR list" where
  "withCallsBefore Q [] = []"
| "withCallsBefore Q (Original MI # body) =
     map HookCall (Q MI) @ Original MI # withCallsBefore Q body"
| "withCallsBefore Q (HookCall d # body) = HookCall d # withCallsBefore Q body"

section \<open>Example inputs\<close>

text \<open>
  A kernel symbol of loaded code object 1, loaded at device address \<open>0x1000\<close>, and
  collaborators that serve it: the backend decodes three 4-byte instructions
  (\<^verbatim>\<open>s_mov_b32 s0, 0x10\<close>, \<^verbatim>\<open>s_branch .L\<close>, \<^verbatim>\<open>.L: s_endpgm\<close>) at offsets 0, 4 and
  8; opcode 2 is the branch, whose operand is the word offset of its target from
  the end of the instruction.
\<close>

definition exampleKernel :: LoadedCodeObjectSymbol where
  "exampleKernel =
     \<lparr>BackingLCO = 1, StorageELF = 0x5000,
      Symbol = \<lparr>SymbolPimpl = 0x300000002, OwningObject = 0x5000\<rparr>,
      Kind = SK_KERNEL, ExecutableSymbol = Some 0x77\<rparr>"

definition s_mov_b32 :: MCInst where
  "s_mov_b32 = \<lparr>Opcode = 1, Operands = [0, 0x10]\<rparr>"

definition s_branch :: MCInst where
  "s_branch = \<lparr>Opcode = 2, Operands = [0]\<rparr>"

definition s_endpgm :: MCInst where
  "s_endpgm = \<lparr>Opcode = 3, Operands = []\<rparr>"

definition exampleServices :: Services where
  "exampleServices =
     \<lparr>getAssociatedObjectFile = (\<lambda>LCO. Inr 0x5000),
      getObjectFileTargetTuple = (\<lambda>Obj. Inr (''amdgcn-amd-amdhsa'', ''gfx908'', ''+sramecc'')),
      isaFromLLVM = (\<lambda>Triple CPU Features. Inr 9),
      getLoadedSymbolContents =
        (\<lambda>S. Inr \<lparr>ArrayRef_data = 0x1000, ArrayRef_size = 12\<rparr>),
      convertToHostEquivalent = (\<lambda>A. Inr (replicate 12 0)),
      disassembleCode = (\<lambda>ISA Code. Inr ([s_mov_b32, s_branch, s_endpgm], [0, 4, 8])),
      getTargetInfo = (\<lambda>ISA. Inr 0x6000),
      isBranch = (\<lambda>TargetInfo Op. Op = 2),
      evaluateBranch =
        (\<lambda>I Addr Sz. case Operands I of [Imm] \<Rightarrow> Some (Addr + Sz + 4 * Imm) | _ \<Rightarrow> None)\<rparr>"

text \<open>The same collaborators with a target manager that has no description of the ISA.\<close>

definition failingServices :: Services where
  "failingServices = exampleServices\<lparr>getTargetInfo := (\<lambda>ISA. Inl TargetError)\<rparr>"

text \<open>A lifter with empty caches; lifted representations are numbered.\<close>

definition emptyLifter :: "(nat, unit) CodeLifter" where
  "emptyLifter =
     \<lparr>MCDisassembledSymbols = [], DirectBranchTargetLocations = Map.empty,
      Relocations = Map.empty, LiftedKernelSymbols = []\<rparr>"

text \<open>A loader with no instrumented kernel.\<close>

definition emptyLoader :: "unit ToolExecutableLoader" where
  "emptyLoader =
     \<lparr>InstrumentedKernelMetadata = Map.empty,
      OriginalExecutablesWithKernelsInstrumented = Map.empty,
      OriginalToInstrumentedKernelsMap = Map.empty\<rparr>"

text \<open>
  Two loaded code objects: code object 1, of executable 10, holds the example
  kernel; code object 2 belongs to executable 20. Both are cached, and the
  example kernel has been disassembled.
\<close>

definition exampleExecutableOf :: "hsa_loaded_code_object_t \<Rightarrow> hsa_executable_t" where
  "exampleExecutableOf LCO = (if LCO = 1 then 10 else 20)"

definition exampleCore :: "(nat, unit) Core" where
  "exampleCore =
     \<lparr>CodeObjectCache =
        \<lparr>LCOCache = [1 \<mapsto> \<lparr>CodeObject = replicate 12 0, ParsedELF = 0x5000\<rparr>,
                     2 \<mapsto> \<lparr>CodeObject = [], ParsedELF = 0x5100\<rparr>]\<rparr>,
      Lifter = snd (disassemble exampleServices exampleKernel emptyLifter)\<rparr>"

text \<open>
  A task over a lifted representation with the machine instructions 100 and 101
  and an instrumentation module with two hooks, nothing queued yet.
\<close>

definition exampleTask :: InstrumentationTask where
  "exampleTask =
     \<lparr>LR = {100, 101}, IM = [0xA \<mapsto> ''h1'', 0xB \<mapsto> ''h2''],
      HookInsertionTasks = Map.empty\<rparr>"

section \<open>Properties of packets and symbols\<close>

lemma getPacketType_low_byte: "getPacketType P = ucast (Header P AND 255)"
  by (simp add: getPacketType_def HSA_PACKET_HEADER_TYPE_def HSA_PACKET_HEADER_WIDTH_TYPE_def
      unsigned_and_eq)

text \<open>
  C9. Each typed accessor returns the pointer to the packet exactly when the type
  extracted from the packet's header is the accessor's HSA packet type, and
  \<^verbatim>\<open>nullptr\<close> exactly when it is not; the type is the low byte of the header.
\<close>

theorem AqlPacket_typed_accessors:
  "getPacketType P = ucast (Header P AND 255) \<and>
   (asKernelDispatch P = Some P) = (getPacketType P = HSA_PACKET_TYPE_KERNEL_DISPATCH) \<and>
   (asKernelDispatch P = None) = (getPacketType P \<noteq> HSA_PACKET_TYPE_KERNEL_DISPATCH) \<and>
   (asAMDVendor P = Some P) = (getPacketType P = HSA_PACKET_TYPE_VENDOR_SPECIFIC) \<and>
   (asAMDVendor P = None) = (getPacketType P \<noteq> HSA_PACKET_TYPE_VENDOR_SPECIFIC) \<and>
   (asBarrierAnd P = Some P) = (getPacketType P = HSA_PACKET_TYPE_BARRIER_AND) \<and>
   (asBarrierAnd P = None) = (getPacketType P \<noteq> HSA_PACKET_TYPE_BARRIER_AND) \<and>
   (asBarrierOr P = Some P) = (getPacketType P = HSA_PACKET_TYPE_BARRIER_OR) \<and>
   (asBarrierOr P = None) = (getPacketType P \<noteq> HSA_PACKET_TYPE_BARRIER_OR) \<and>
   (asAgentDispatch P = Some P) = (getPacketType P = HSA_PACKET_TYPE_AGENT_DISPATCH) \<and>
   (asAgentDispatch P = None) = (getPacketType P \<noteq> HSA_PACKET_TYPE_AGENT_DISPATCH)"
  by (simp add: getPacketType_low_byte asKernelDispatch_def asAMDVendor_def asBarrierAnd_def
      asBarrierOr_def asAgentDispatch_def)

lemma symbol_eq_fields:
  "symbol_eq A B =
     (SymbolPimpl (Symbol A) = SymbolPimpl (Symbol B) \<and> BackingLCO A = BackingLCO B \<and>
      Kind A = Kind B \<and> ExecutableSymbol A = ExecutableSymbol B)"
  by (auto simp: symbol_eq_def ELFSymbolRef_eq_def Let_def split: option.splits)

lemma symbol_eq_refl: "symbol_eq A A"
  by (simp add: symbol_eq_fields)

lemma symbol_eq_clone: "symbol_eq (clone A) B = symbol_eq A B"
  by (simp add: symbol_eq_fields clone_def)

lemma symbol_eq_hash: "symbol_eq A B \<Longrightarrow> hash hc A = hash hc B"
  by (simp add: symbol_eq_fields hash_def Let_def Raw_p_def Raw_d_a_def Raw_d_b_def)

text \<open>
  C10. Two symbols that are equal under \<^verbatim>\<open>operator==\<close> have the same hash,
  whatever function \<^verbatim>\<open>llvm::hash_combine\<close> is; a symbol and its clone are equal and
  hash equally; and the same holds for the equality and hash functors that the
  lifter's caches apply to possibly null symbol pointers.
\<close>

theorem symbol_equal_implies_hash_equal:
  "(symbol_eq A B \<longrightarrow> hash hc A = hash hc B) \<and>
   symbol_eq A (clone A) \<and> symbol_eq (clone A) A \<and> hash hc (clone A) = hash hc A \<and>
   (LoadedCodeObjectSymbolEqualTo pA pB \<longrightarrow>
      LoadedCodeObjectSymbolHash hc hn pA = LoadedCodeObjectSymbolHash hc hn pB)"
proof -
  have "LoadedCodeObjectSymbolEqualTo pA pB \<Longrightarrow>
      LoadedCodeObjectSymbolHash hc hn pA = LoadedCodeObjectSymbolHash hc hn pB"
    by (cases pA; cases pB) (auto dest: symbol_eq_hash)
  moreover have "symbol_eq A (clone A)" "symbol_eq (clone A) A"
    by (simp_all add: symbol_eq_fields clone_def)
  moreover have "hash hc (clone A) = hash hc A"
    by (rule symbol_eq_hash) (simp add: symbol_eq_clone symbol_eq_refl)
  ultimately show ?thesis
    by (auto dest: symbol_eq_hash)
qed

theorem symbol_equal_implies_hash_equal_witness:
  "symbol_eq exampleKernel (exampleKernel\<lparr>StorageELF := 0x9000\<rparr>) \<and>
   exampleKernel \<noteq> exampleKernel\<lparr>StorageELF := 0x9000\<rparr> \<and>
   hash (\<lambda>a b c d k e. a + b + ucast c + ucast d + e) exampleKernel =
     hash (\<lambda>a b c d k e. a + b + ucast c + ucast d + e) (exampleKernel\<lparr>StorageELF := 0x9000\<rparr>) \<and>
   hash (\<lambda>a b c d k e. a + b + ucast c + ucast d + e) exampleKernel = 0x30000007F \<and>
   LoadedCodeObjectSymbolEqualTo (Some exampleKernel) (Some (clone exampleKernel)) \<and>
   LoadedCodeObjectSymbolHash (\<lambda>a b c d k e. a + b + ucast c + ucast d + e) 0
       (Some exampleKernel) =
     LoadedCodeObjectSymbolHash (\<lambda>a b c d k e. a + b + ucast c + ucast d + e) 0
       (Some (clone exampleKernel))"
proof -
  let ?hc = "\<lambda>a b c d k e. a + b + ucast c + ucast d + (e :: u64) :: u64"
  let ?B = "exampleKernel\<lparr>StorageELF := 0x9000\<rparr>"
  have e: "symbol_eq exampleKernel ?B"
    by (simp add: symbol_eq_fields)
  have n: "exampleKernel \<noteq> ?B"
    by (simp add: exampleKernel_def)
  have h: "hash ?hc exampleKernel = 0x30000007F"
    by (simp add: hash_def exampleKernel_def Raw_p_def Raw_d_a_def Raw_d_b_def Let_def)
  have q: "LoadedCodeObjectSymbolEqualTo (Some exampleKernel) (Some (clone exampleKernel))"
    by (simp add: symbol_eq_fields clone_def)
  from symbol_equal_implies_hash_equal
    [of exampleKernel ?B ?hc "Some exampleKernel" "Some (clone exampleKernel)" 0]
  show ?thesis
    using e n h q by simp
qed

section \<open>Properties of the preset map\<close>

lemma instrumentedKernelOf_insert_other:
  "instrumentedKernelOf this K P = Some IK \<Longrightarrow>
   instrumentedKernelOf (insertInstrumentedKernelIntoMap OE K' P' IE IK' this) K P = Some IK"
  by (auto simp: instrumentedKernelOf_def insertInstrumentedKernelIntoMap_def Let_def
      StringMap_insert_def split: option.splits)

lemma instrumentedKernelOf_registerAll:
  "instrumentedKernelOf this K P = Some IK \<Longrightarrow>
   instrumentedKernelOf (registerAll rs this) K P = Some IK"
proof (induction rs arbitrary: this)
  case Nil
  then show ?case by simp
next
  case (Cons r rs)
  obtain OE K' P' IE IK' where r: "r = (OE, K', P', IE, IK')"
    by (cases r) auto
  show ?case
    unfolding r registerAll.simps
    by (rule Cons.IH) (rule instrumentedKernelOf_insert_other [OF Cons.prems])
qed

lemma insert_registered_unchanged:
  assumes "instrumentedKernelOf this K P = Some IK"
  shows "OriginalToInstrumentedKernelsMap (insertInstrumentedKernelIntoMap OE K P IE' IK' this)
         = OriginalToInstrumentedKernelsMap this"
proof -
  from assms obtain e where e: "OriginalToInstrumentedKernelsMap this K = Some e" "e P = Some IK"
    by (auto simp: instrumentedKernelOf_def split: option.splits)
  then have "StringMap_insert e P IK' = e"
    by (simp add: StringMap_insert_def)
  with e show ?thesis
    by (simp add: insertInstrumentedKernelIntoMap_def Let_def fun_upd_idem)
qed

lemma insert_fresh_registers:
  "instrumentedKernelOf this K P = None \<Longrightarrow>
   instrumentedKernelOf (insertInstrumentedKernelIntoMap OE K P IE IK this) K P = Some IK"
  by (auto simp: instrumentedKernelOf_def insertInstrumentedKernelIntoMap_def Let_def
      StringMap_insert_def split: option.splits)

text \<open>
  C2. A registration for a pair of original kernel and preset that has no entry
  yet binds the pair to the instrumented kernel. Once the pair is bound, a
  further registration for it leaves the preset map unchanged, and after any
  sequence of further registrations, for this or any other pair, the map still
  binds the pair to the same instrumented kernel: it is the symbol that
  \<^verbatim>\<open>getInstrumentedKernel\<close> reports.
\<close>

theorem preset_registration_unique:
  "(instrumentedKernelOf this K P = None \<longrightarrow>
      instrumentedKernelOf (insertInstrumentedKernelIntoMap OE K P IE IK this) K P = Some IK) \<and>
   (instrumentedKernelOf this K P = Some IK \<longrightarrow>
      OriginalToInstrumentedKernelsMap (insertInstrumentedKernelIntoMap OE' K P IE' IK' this)
        = OriginalToInstrumentedKernelsMap this \<and>
      instrumentedKernelOf (insertInstrumentedKernelIntoMap OE' K P IE' IK' this) K P = Some IK \<and>
      instrumentedKernelOf (registerAll rs this) K P = Some IK)"
  by (simp add: insert_fresh_registers instrumentedKernelOf_registerAll
      insert_registered_unchanged instrumentedKernelOf_insert_other)

theorem preset_registration_unique_witness:
  "instrumentedKernelOf emptyLoader 7 ''p'' = None \<and>
   instrumentedKernelOf (insertInstrumentedKernelIntoMap 1 7 ''p'' 2 8 emptyLoader) 7 ''p''
     = Some 8 \<and>
   OriginalToInstrumentedKernelsMap
     (insertInstrumentedKernelIntoMap 1 7 ''p'' 3 9
        (insertInstrumentedKernelIntoMap 1 7 ''p'' 2 8 emptyLoader))
     = OriginalToInstrumentedKernelsMap (insertInstrumentedKernelIntoMap 1 7 ''p'' 2 8 emptyLoader) \<and>
   instrumentedKernelOf
     (registerAll [(1, 7, ''p'', 3, 9), (1, 7, ''q'', 4, 10), (1, 7, ''p'', 5, 11)]
        (insertInstrumentedKernelIntoMap 1 7 ''p'' 2 8 emptyLoader)) 7 ''p'' = Some 8"
proof -
  have a: "instrumentedKernelOf emptyLoader 7 ''p'' = None"
    by (simp add: instrumentedKernelOf_def emptyLoader_def)
  have b: "instrumentedKernelOf (insertInstrumentedKernelIntoMap 1 7 ''p'' 2 8 emptyLoader) 7 ''p''
      = Some 8"
    using preset_registration_unique [of emptyLoader 7 "''p''" 1 2 8] a by simp
  show ?thesis
    using a b preset_registration_unique
      [of "insertInstrumentedKernelIntoMap 1 7 ''p'' 2 8 emptyLoader" 7 "''p''" 1 2 8 1 3 9
        "[(1, 7, ''p'', 3, 9), (1, 7, ''q'', 4, 10), (1, 7, ''p'', 5, 11)]"]
    by simp
qed

section \<open>Properties of disassembly and lifting\<close>

lemma find_symbol_cong: "symbol_eq S S' \<Longrightarrow> find_symbol m S = find_symbol m S'"
  by (induction m) (auto simp: symbol_eq_fields)

lemma find_symbol_append:
  "find_symbol (m @ [(k, v)]) S =
     (case find_symbol m S of Some x \<Rightarrow> Some x
      | None \<Rightarrow> if symbol_eq k S then Some v else None)"
  by (induction m) auto

lemma find_symbol_emplace_new:
  "\<not> contains m S \<Longrightarrow> find_symbol (emplace m (clone S) v) S = Some v"
proof -
  assume a: "\<not> contains m S"
  have "symbol_eq (clone S) S" by (simp add: symbol_eq_clone symbol_eq_refl)
  then have "find_symbol m (clone S) = find_symbol m S"
    by (rule find_symbol_cong)
  with a have "\<not> contains m (clone S)" by (simp add: contains_def)
  with a show ?thesis
    by (simp add: emplace_def find_symbol_append contains_def symbol_eq_clone symbol_eq_refl)
qed

lemma find_symbol_emplace_old:
  "find_symbol m S = Some x \<Longrightarrow> find_symbol (emplace m k v) S = Some x"
  by (simp add: emplace_def find_symbol_append)

lemma find_symbol_push_back_same:
  "find_symbol m S = Some out \<Longrightarrow> find_symbol (push_back_Out S r m) S = Some (out @ [r])"
  by (induction m) (auto simp: symbol_eq_fields)

lemma find_symbol_push_back_other:
  "\<not> symbol_eq S' S \<Longrightarrow> find_symbol (push_back_Out S r m) S' = find_symbol m S'"
  by (induction m) (auto simp: symbol_eq_fields)

lemma MCDisassembledSymbols_addDirectBranchTargetAddress [simp]:
  "MCDisassembledSymbols (addDirectBranchTargetAddress L T this) = MCDisassembledSymbols this"
  by (simp add: addDirectBranchTargetAddress_def)

lemma LiftedKernelSymbols_addDirectBranchTargetAddress [simp]:
  "LiftedKernelSymbols (addDirectBranchTargetAddress L T this) = LiftedKernelSymbols this"
  by (simp add: addDirectBranchTargetAddress_def)

lemma Relocations_addDirectBranchTargetAddress [simp]:
  "Relocations (addDirectBranchTargetAddress L T this) = Relocations this"
  by (simp add: addDirectBranchTargetAddress_def)

lemma targetSet_addDirectBranchTargetAddress:
  "targetSet (addDirectBranchTargetAddress L T this) L' =
     (if L' = L then insert T (targetSet this L) else targetSet this L')"
  by (simp add: addDirectBranchTargetAddress_def targetSet_def)

lemma targetSet_MCDisassembledSymbols_update [simp]:
  "targetSet (this\<lparr>MCDisassembledSymbols := c\<rparr>) L = targetSet this L"
  by (simp add: targetSet_def)

lemma disassembleLoop_cache:
  "find_symbol (MCDisassembledSymbols this) Sym = Some out \<Longrightarrow>
   find_symbol (MCDisassembledSymbols
      (disassembleLoop sv TI Sym LCO Base Is As Prev this)) Sym
     = Some (out @ loopRecords Sym Base Is As Prev)"
proof (induction sv TI Sym LCO Base Is As Prev this arbitrary: out
    rule: disassembleLoop.induct)
  case (3 sv TI Sym LCO Base I Is A As Prev this)
  show ?case
    using "3.prems"
    by (subst disassembleLoop.simps, subst loopRecords.simps, unfold Let_def,
        subst "3.IH" [OF refl refl refl refl])
      (auto simp: find_symbol_push_back_same split: option.splits)
qed simp_all

lemma disassembleLoop_cache_other:
  "\<not> symbol_eq S' Sym \<Longrightarrow>
   find_symbol (MCDisassembledSymbols
      (disassembleLoop sv TI Sym LCO Base Is As Prev this)) S'
     = find_symbol (MCDisassembledSymbols this) S'"
proof (induction sv TI Sym LCO Base Is As Prev this rule: disassembleLoop.induct)
  case (3 sv TI Sym LCO Base I Is A As Prev this)
  show ?case
    using "3.prems"
    by (subst disassembleLoop.simps, unfold Let_def, subst "3.IH" [OF refl refl refl refl])
      (auto simp: find_symbol_push_back_other split: option.splits)
qed simp_all

lemma branchTargets_Nil [simp]: "branchTargets sv TI [] = {}"
  by (simp add: branchTargets_def)

lemma branchTargets_Cons:
  "branchTargets sv TI (r # rs) =
     (case evaluatedTarget sv TI r of None \<Rightarrow> {} | Some T \<Rightarrow> {T}) \<union> branchTargets sv TI rs"
  by (auto simp: branchTargets_def split: option.splits)

lemma disassembleLoop_targets:
  "targetSet (disassembleLoop sv TI Sym LCO Base Is As Prev this) L =
     (if L = LCO then targetSet this LCO \<union> branchTargets sv TI (loopRecords Sym Base Is As Prev)
      else targetSet this L)"
proof (induction sv TI Sym LCO Base Is As Prev this rule: disassembleLoop.induct)
  case (3 sv TI Sym LCO Base I Is A As Prev this)
  show ?case
    by (subst disassembleLoop.simps, subst loopRecords.simps, unfold Let_def,
        subst "3.IH" [OF refl refl refl refl])
      (auto simp: branchTargets_Cons evaluatedTarget_def targetSet_addDirectBranchTargetAddress
        split: option.splits)
qed simp_all

lemma disassembleLoop_LiftedKernelSymbols [simp]:
  "LiftedKernelSymbols (disassembleLoop sv TI Sym LCO Base Is As Prev this) =
     LiftedKernelSymbols this"
proof (induction sv TI Sym LCO Base Is As Prev this rule: disassembleLoop.induct)
  case (3 sv TI Sym LCO Base I Is A As Prev this)
  show ?case
    by (subst disassembleLoop.simps, unfold Let_def, subst "3.IH" [OF refl refl refl refl])
      (auto split: option.splits)
qed simp_all

lemma disassemble_cached:
  "find_symbol (MCDisassembledSymbols this) Sym = Some xs \<Longrightarrow>
   disassemble sv Sym this = (Inr xs, this)"
  by (simp add: disassemble_def contains_def)

lemma disassemble_fresh:
  assumes fresh: "\<not> contains (MCDisassembledSymbols this) Sym"
    and obj: "getAssociatedObjectFile sv (BackingLCO Sym) = Inr ObjFile"
    and tuple: "getObjectFileTargetTuple sv ObjFile = Inr (Triple, CPU, Features)"
    and isa: "isaFromLLVM sv Triple CPU Features = Inr ISA"
    and dev: "getLoadedSymbolContents sv Sym = Inr Dev"
    and host: "convertToHostEquivalent sv Dev = Inr Host"
    and dis: "disassembleCode sv ISA Host = Inr (Is, As)"
    and ti: "getTargetInfo sv ISA = Inr TI"
  shows "disassemble sv Sym this =
    (Inr (loopRecords Sym (ArrayRef_data Dev) Is As (ArrayRef_data Dev)),
     disassembleLoop sv TI Sym (BackingLCO Sym) (ArrayRef_data Dev) Is As (ArrayRef_data Dev)
       (this\<lparr>MCDisassembledSymbols := emplace (MCDisassembledSymbols this) (clone Sym) []\<rparr>))"
proof -
  let ?this1 = "this\<lparr>MCDisassembledSymbols := emplace (MCDisassembledSymbols this) (clone Sym) []\<rparr>"
  have "find_symbol (MCDisassembledSymbols ?this1) Sym = Some []"
    using fresh by (simp add: find_symbol_emplace_new)
  then have "find_symbol (MCDisassembledSymbols
      (disassembleLoop sv TI Sym (BackingLCO Sym) (ArrayRef_data Dev) Is As (ArrayRef_data Dev)
         ?this1)) Sym
     = Some ([] @ loopRecords Sym (ArrayRef_data Dev) Is As (ArrayRef_data Dev))"
    by (rule disassembleLoop_cache)
  then show ?thesis
    using fresh obj tuple isa dev host dis ti
    by (simp add: disassemble_def Let_def)
qed

lemma disassemble_success_find:
  assumes "disassemble sv Sym this = (Inr xs, this')"
  shows "find_symbol (MCDisassembledSymbols this') Sym = Some xs"
proof (cases "contains (MCDisassembledSymbols this) Sym")
  case True
  then obtain ys where ys: "find_symbol (MCDisassembledSymbols this) Sym = Some ys"
    by (auto simp: contains_def)
  from disassemble_cached [OF ys, of sv] assms ys show ?thesis by simp
next
  case False
  from assms False obtain ObjFile Triple CPU Features ISA Dev Host Is As TI where
    s: "getAssociatedObjectFile sv (BackingLCO Sym) = Inr ObjFile"
      "getObjectFileTargetTuple sv ObjFile = Inr (Triple, CPU, Features)"
      "isaFromLLVM sv Triple CPU Features = Inr ISA"
      "getLoadedSymbolContents sv Sym = Inr Dev"
      "convertToHostEquivalent sv Dev = Inr Host"
      "disassembleCode sv ISA Host = Inr (Is, As)"
      "getTargetInfo sv ISA = Inr TI"
    by (auto simp: disassemble_def Let_def split: sum.splits prod.splits)
  let ?this1 = "this\<lparr>MCDisassembledSymbols := emplace (MCDisassembledSymbols this) (clone Sym) []\<rparr>"
  have "find_symbol (MCDisassembledSymbols ?this1) Sym = Some []"
    using False by (simp add: find_symbol_emplace_new)
  then have f: "find_symbol (MCDisassembledSymbols
      (disassembleLoop sv TI Sym (BackingLCO Sym) (ArrayRef_data Dev) Is As (ArrayRef_data Dev)
         ?this1)) Sym
     = Some ([] @ loopRecords Sym (ArrayRef_data Dev) Is As (ArrayRef_data Dev))"
    by (rule disassembleLoop_cache)
  from disassemble_fresh [OF False s] assms f show ?thesis by simp
qed

lemma disassemble_keeps_entries:
  assumes "find_symbol (MCDisassembledSymbols this) S = Some v"
  shows "find_symbol (MCDisassembledSymbols (snd (disassemble sv Sym this))) S = Some v"
proof (cases "contains (MCDisassembledSymbols this) Sym")
  case True
  then show ?thesis using assms by (simp add: disassemble_def)
next
  case False
  have ne: "\<not> symbol_eq S Sym"
  proof
    assume "symbol_eq S Sym"
    then have "find_symbol (MCDisassembledSymbols this) S = find_symbol (MCDisassembledSymbols this) Sym"
      by (rule find_symbol_cong)
    with assms False show False by (simp add: contains_def)
  qed
  have e: "find_symbol (emplace (MCDisassembledSymbols this) (clone Sym) []) S = Some v"
    using assms by (rule find_symbol_emplace_old)
  show ?thesis
    using False assms e ne
    by (auto simp: disassemble_def Let_def disassembleLoop_cache_other
        split: sum.splits prod.splits)
qed

lemma disassemble_LiftedKernelSymbols [simp]:
  "LiftedKernelSymbols (snd (disassemble sv Sym this)) = LiftedKernelSymbols this"
  by (auto simp: disassemble_def Let_def split: sum.splits prod.splits)

lemma disassembleAll_LiftedKernelSymbols [simp]:
  "LiftedKernelSymbols (snd (disassembleAll sv Fs this)) = LiftedKernelSymbols this"
proof (induction Fs arbitrary: this)
  case Nil
  then show ?case by simp
next
  case (Cons F Fs)
  obtain r this1 where d: "disassemble sv F this = (r, this1)"
    by (cases "disassemble sv F this") auto
  have a: "LiftedKernelSymbols this1 = LiftedKernelSymbols this"
    using disassemble_LiftedKernelSymbols [of sv F this] d by simp
  show ?case
    using a d Cons.IH [of this1]
    by (auto split: prod.splits sum.splits)
qed

lemma disassembleAll_keeps_entries:
  "find_symbol (MCDisassembledSymbols this) S = Some v \<Longrightarrow>
   find_symbol (MCDisassembledSymbols (snd (disassembleAll sv Fs this))) S = Some v"
proof (induction Fs arbitrary: this)
  case Nil
  then show ?case by simp
next
  case (Cons F Fs)
  obtain r this1 where d: "disassemble sv F this = (r, this1)"
    by (cases "disassemble sv F this") auto
  have a: "find_symbol (MCDisassembledSymbols this1) S = Some v"
    using disassemble_keeps_entries [OF Cons.prems, of sv F] d by simp
  show ?case
    using a d Cons.IH [OF a]
    by (auto split: prod.splits sum.splits)
qed

lemma lift_cached:
  "find_symbol (LiftedKernelSymbols this) K = Some lr \<Longrightarrow>
   lift sv df build K this = (Inr lr, this)"
  by (simp add: lift_def)

lemma lift_success_find:
  assumes "lift sv df build K this = (Inr lr, this')"
  shows "find_symbol (LiftedKernelSymbols this') K = Some lr"
proof (cases "find_symbol (LiftedKernelSymbols this) K")
  case (Some LR0)
  from lift_cached [OF Some, of sv df build] assms Some show ?thesis by simp
next
  case None
  obtain r this1 where d: "disassembleAll sv (K # df K) this = (r, this1)"
    by (cases "disassembleAll sv (K # df K) this") auto
  have l1: "LiftedKernelSymbols this1 = LiftedKernelSymbols this"
    using disassembleAll_LiftedKernelSymbols [of sv "K # df K" this] d by simp
  then have "\<not> contains (LiftedKernelSymbols this1) K"
    using None by (simp add: contains_def)
  then have e: "\<And>x. find_symbol (emplace (LiftedKernelSymbols this1) (clone K) x) K = Some x"
    by (rule find_symbol_emplace_new)
  from assms None d e show ?thesis
    by (auto simp: lift_def Let_def split: sum.splits simp del: disassembleAll.simps)
qed

lemma lift_keeps_lifted:
  assumes "find_symbol (LiftedKernelSymbols this) S = Some v"
  shows "find_symbol (LiftedKernelSymbols (snd (lift sv df build K this))) S = Some v"
proof (cases "find_symbol (LiftedKernelSymbols this) K")
  case (Some LR0)
  then show ?thesis using assms by (simp add: lift_def)
next
  case None
  obtain r this1 where d: "disassembleAll sv (K # df K) this = (r, this1)"
    by (cases "disassembleAll sv (K # df K) this") auto
  have l1: "LiftedKernelSymbols this1 = LiftedKernelSymbols this"
    using disassembleAll_LiftedKernelSymbols [of sv "K # df K" this] d by simp
  have e: "\<And>x. find_symbol (emplace (LiftedKernelSymbols this1) (clone K) x) S = Some v"
    using assms l1 by (simp add: find_symbol_emplace_old)
  from assms None d e l1 show ?thesis
    by (auto simp: lift_def Let_def split: sum.splits simp del: disassembleAll.simps)
qed

lemma lift_keeps_entries:
  assumes "find_symbol (MCDisassembledSymbols this) S = Some v"
  shows "find_symbol (MCDisassembledSymbols (snd (lift sv df build K this))) S = Some v"
proof (cases "find_symbol (LiftedKernelSymbols this) K")
  case (Some LR0)
  then show ?thesis using assms by (simp add: lift_def)
next
  case None
  obtain r this1 where d: "disassembleAll sv (K # df K) this = (r, this1)"
    by (cases "disassembleAll sv (K # df K) this") auto
  have k: "find_symbol (MCDisassembledSymbols this1) S = Some v"
    using disassembleAll_keeps_entries [OF assms, of sv "K # df K"] d by simp
  from None d k show ?thesis
    by (auto simp: lift_def Let_def split: sum.splits simp del: disassembleAll.simps)
qed

lemma performCalls_keeps_entries:
  "find_symbol (MCDisassembledSymbols this) S = Some v \<Longrightarrow>
   find_symbol (MCDisassembledSymbols (performCalls cs this)) S = Some v"
proof (induction cs arbitrary: this)
  case Nil
  then show ?case by simp
next
  case (Cons c cs)
  have "find_symbol (MCDisassembledSymbols (performCall c this)) S = Some v"
    using Cons.prems
    by (cases c) (simp_all add: disassemble_keeps_entries lift_keeps_entries)
  then show ?case by (simp add: Cons.IH)
qed

lemma performCalls_keeps_lifted:
  "find_symbol (LiftedKernelSymbols this) S = Some v \<Longrightarrow>
   find_symbol (LiftedKernelSymbols (performCalls cs this)) S = Some v"
proof (induction cs arbitrary: this)
  case Nil
  then show ?case by simp
next
  case (Cons c cs)
  have "find_symbol (LiftedKernelSymbols (performCall c this)) S = Some v"
    using Cons.prems
    by (cases c) (simp_all add: lift_keeps_lifted)
  then show ?case by (simp add: Cons.IH)
qed

text \<open>
  C4. A call of \<open>disassemble\<close> that returns an instruction list leaves it in the
  cache; every later call for the symbol, whatever the collaborators would
  answer by then and whatever calls were made in between, returns that same list
  from the cache and changes nothing. Likewise for \<open>lift\<close> and the lifted
  representation of a kernel.
\<close>

theorem disassemble_and_lift_return_cached_result:
  "(disassemble sv Sym this = (Inr xs, this') \<longrightarrow>
      disassemble sv' Sym (performCalls cs this') = (Inr xs, performCalls cs this')) \<and>
   (lift svl df build K that = (Inr lr, that') \<longrightarrow>
      lift svl' df' build' K (performCalls cs' that') = (Inr lr, performCalls cs' that'))"
proof (intro conjI impI)
  assume "disassemble sv Sym this = (Inr xs, this')"
  then have "find_symbol (MCDisassembledSymbols this') Sym = Some xs"
    by (rule disassemble_success_find)
  then have "find_symbol (MCDisassembledSymbols (performCalls cs this')) Sym = Some xs"
    by (rule performCalls_keeps_entries)
  then show "disassemble sv' Sym (performCalls cs this') = (Inr xs, performCalls cs this')"
    by (rule disassemble_cached)
next
  assume "lift svl df build K that = (Inr lr, that')"
  then have "find_symbol (LiftedKernelSymbols that') K = Some lr"
    by (rule lift_success_find)
  then have "find_symbol (LiftedKernelSymbols (performCalls cs' that')) K = Some lr"
    by (rule performCalls_keeps_lifted)
  then show "lift svl' df' build' K (performCalls cs' that') = (Inr lr, performCalls cs' that')"
    by (rule lift_cached)
qed

lemma example_disassemble:
  "disassemble exampleServices exampleKernel emptyLifter =
     (Inr [\<lparr>Inst = s_mov_b32, LoadedDeviceAddress = 0x1000, InstrSymbol = exampleKernel,
            InstrSize = 0\<rparr>,
           \<lparr>Inst = s_branch, LoadedDeviceAddress = 0x1004, InstrSymbol = exampleKernel,
            InstrSize = 4\<rparr>,
           \<lparr>Inst = s_endpgm, LoadedDeviceAddress = 0x1008, InstrSymbol = exampleKernel,
            InstrSize = 4\<rparr>],
      \<lparr>MCDisassembledSymbols =
         [(exampleKernel,
           [\<lparr>Inst = s_mov_b32, LoadedDeviceAddress = 0x1000, InstrSymbol = exampleKernel,
             InstrSize = 0\<rparr>,
            \<lparr>Inst = s_branch, LoadedDeviceAddress = 0x1004, InstrSymbol = exampleKernel,
             InstrSize = 4\<rparr>,
            \<lparr>Inst = s_endpgm, LoadedDeviceAddress = 0x1008, InstrSymbol = exampleKernel,
             InstrSize = 4\<rparr>])],
       DirectBranchTargetLocations = [1 \<mapsto> {0x1008}],
       Relocations = Map.empty, LiftedKernelSymbols = []\<rparr>)"
  by (simp add: disassemble_def exampleServices_def emptyLifter_def contains_def emplace_def
      clone_def exampleKernel_def symbol_eq_fields Let_def addDirectBranchTargetAddress_def
      s_mov_b32_def s_branch_def s_endpgm_def)

text \<open>
  C7. When \<open>disassemble\<close> decodes a symbol that is not in the cache and succeeds,
  the Direct-Branch Target Set of the symbol's loaded code object grows by
  exactly the targets that the evaluator computes for the records classified as
  branches; records that are not branches or whose target is not evaluated add
  nothing, and the sets of the other loaded code objects stay as they are. A
  call answered from the cache adds nothing.
\<close>

theorem direct_branch_targets_recorded:
  "(\<not> contains (MCDisassembledSymbols this) Sym \<longrightarrow>
    getAssociatedObjectFile sv (BackingLCO Sym) = Inr ObjFile \<longrightarrow>
    getObjectFileTargetTuple sv ObjFile = Inr (Triple, CPU, Features) \<longrightarrow>
    isaFromLLVM sv Triple CPU Features = Inr ISA \<longrightarrow>
    getTargetInfo sv ISA = Inr TargetInfo \<longrightarrow>
    disassemble sv Sym this = (Inr Out, this') \<longrightarrow>
      targetSet this' (BackingLCO Sym) =
        targetSet this (BackingLCO Sym) \<union> branchTargets sv TargetInfo Out \<and>
      (\<forall>L. L \<noteq> BackingLCO Sym \<longrightarrow> targetSet this' L = targetSet this L)) \<and>
   (contains (MCDisassembledSymbols this) Sym \<longrightarrow>
      snd (disassemble sv Sym this) = this)"
proof (intro conjI impI)
  assume fresh: "\<not> contains (MCDisassembledSymbols this) Sym"
    and obj: "getAssociatedObjectFile sv (BackingLCO Sym) = Inr ObjFile"
    and tuple: "getObjectFileTargetTuple sv ObjFile = Inr (Triple, CPU, Features)"
    and isa: "isaFromLLVM sv Triple CPU Features = Inr ISA"
    and ti: "getTargetInfo sv ISA = Inr TargetInfo"
    and res: "disassemble sv Sym this = (Inr Out, this')"
  from res fresh obj tuple isa ti obtain Dev Host Is As where
    s: "getLoadedSymbolContents sv Sym = Inr Dev"
      "convertToHostEquivalent sv Dev = Inr Host"
      "disassembleCode sv ISA Host = Inr (Is, As)"
    by (auto simp: disassemble_def Let_def split: sum.splits prod.splits)
  let ?this1 = "this\<lparr>MCDisassembledSymbols := emplace (MCDisassembledSymbols this) (clone Sym) []\<rparr>"
  let ?B = "ArrayRef_data Dev"
  from disassemble_fresh [OF fresh obj tuple isa s ti] res
  have out: "Out = loopRecords Sym ?B Is As ?B"
    and st: "this' = disassembleLoop sv TargetInfo Sym (BackingLCO Sym) ?B Is As ?B ?this1"
    by simp_all
  show "targetSet this' (BackingLCO Sym) =
        targetSet this (BackingLCO Sym) \<union> branchTargets sv TargetInfo Out"
    unfolding out st by (simp add: disassembleLoop_targets)
  show "\<forall>L. L \<noteq> BackingLCO Sym \<longrightarrow> targetSet this' L = targetSet this L"
    unfolding st by (simp add: disassembleLoop_targets)
next
  assume "contains (MCDisassembledSymbols this) Sym"
  then show "snd (disassemble sv Sym this) = this"
    by (simp add: disassemble_def)
qed

theorem direct_branch_targets_recorded_witness:
  "\<not> contains (MCDisassembledSymbols emptyLifter) exampleKernel \<and>
   targetSet (snd (disassemble exampleServices exampleKernel emptyLifter)) 1 = {0x1008} \<and>
   targetSet (snd (disassemble exampleServices exampleKernel emptyLifter)) 2 = {} \<and>
   contains (MCDisassembledSymbols (snd (disassemble exampleServices exampleKernel emptyLifter)))
     exampleKernel \<and>
   snd (disassemble exampleServices exampleKernel
          (snd (disassemble exampleServices exampleKernel emptyLifter)))
     = snd (disassemble exampleServices exampleKernel emptyLifter)"
proof -
  let ?Out = "[\<lparr>Inst = s_mov_b32, LoadedDeviceAddress = 0x1000, InstrSymbol = exampleKernel,
            InstrSize = 0\<rparr>,
           \<lparr>Inst = s_branch, LoadedDeviceAddress = 0x1004, InstrSymbol = exampleKernel,
            InstrSize = 4\<rparr>,
           \<lparr>Inst = s_endpgm, LoadedDeviceAddress = 0x1008, InstrSymbol = exampleKernel,
            InstrSize = 4\<rparr>]"
  let ?this' = "snd (disassemble exampleServices exampleKernel emptyLifter)"
  have fresh: "\<not> contains (MCDisassembledSymbols emptyLifter) exampleKernel"
    by (simp add: contains_def emptyLifter_def)
  have lco: "BackingLCO exampleKernel = 1"
    by (simp add: exampleKernel_def)
  have res: "disassemble exampleServices exampleKernel emptyLifter = (Inr ?Out, ?this')"
    by (simp add: example_disassemble)
  have bt: "branchTargets exampleServices 0x6000 ?Out = {0x1008}"
    by (simp add: branchTargets_Cons evaluatedTarget_def exampleServices_def s_mov_b32_def
        s_branch_def s_endpgm_def)
  have t0: "targetSet emptyLifter L = {}" for L
    by (simp add: targetSet_def emptyLifter_def)
  have cached: "contains (MCDisassembledSymbols ?this') exampleKernel"
    by (simp add: example_disassemble contains_def symbol_eq_refl)
  from direct_branch_targets_recorded
    [of emptyLifter exampleKernel exampleServices "0x5000" "''amdgcn-amd-amdhsa''" "''gfx908''"
      "''+sramecc''" 9 "0x6000" ?Out ?this']
  have "targetSet ?this' 1 = {0x1008} \<and> targetSet ?this' 2 = {}"
    using fresh res bt t0 by (simp add: lco exampleServices_def)
  moreover from direct_branch_targets_recorded
    [of ?this' exampleKernel exampleServices]
  have "snd (disassemble exampleServices exampleKernel ?this') = ?this'"
    using cached by simp
  ultimately show ?thesis
    using fresh cached by simp
qed

text \<open>
  C1. At the example kernel (12 bytes, three 4-byte instructions at offsets 0, 4
  and 8) the records of \<open>disassemble\<close> carry the sizes 0, 4 and 4: each is the
  distance to the previous instruction's address, the first is not positive, and
  they add up to 8, not to the 12 bytes of the kernel.
\<close>

theorem disassemble_sizes_at_example_kernel:
  "getLoadedSymbolContents exampleServices exampleKernel =
     Inr \<lparr>ArrayRef_data = 0x1000, ArrayRef_size = 12\<rparr> \<and>
   (case fst (disassemble exampleServices exampleKernel emptyLifter) of
      Inl e \<Rightarrow> False
    | Inr Out \<Rightarrow>
        map LoadedDeviceAddress Out = [0x1000, 0x1004, 0x1008] \<and>
        map InstrSize Out = [0, 4, 4] \<and>
        sum_list (map InstrSize Out) = 8)"
  by (simp add: example_disassemble) (simp add: exampleServices_def)

text \<open>
  C8. With a target manager that fails for the ISA, \<open>disassemble\<close> on the example
  kernel returns the target error, yet the disassembly cache, empty before the
  call, holds an empty instruction list for the kernel afterwards; the next call
  returns that empty list as a success.
\<close>

theorem disassemble_error_leaves_cache_entry:
  "MCDisassembledSymbols emptyLifter = [] \<and>
   disassemble failingServices exampleKernel emptyLifter =
     (Inl TargetError, emptyLifter\<lparr>MCDisassembledSymbols := [(exampleKernel, [])]\<rparr>) \<and>
   disassemble exampleServices exampleKernel
       (emptyLifter\<lparr>MCDisassembledSymbols := [(exampleKernel, [])]\<rparr>) =
     (Inr [], emptyLifter\<lparr>MCDisassembledSymbols := [(exampleKernel, [])]\<rparr>)"
  by (simp add: disassemble_def failingServices_def exampleServices_def emptyLifter_def
      contains_def emplace_def clone_def exampleKernel_def symbol_eq_fields Let_def)

theorem disassemble_and_lift_return_cached_result_witness:
  "fst (disassemble exampleServices exampleKernel emptyLifter) =
     Inr [\<lparr>Inst = s_mov_b32, LoadedDeviceAddress = 0x1000, InstrSymbol = exampleKernel,
            InstrSize = 0\<rparr>,
           \<lparr>Inst = s_branch, LoadedDeviceAddress = 0x1004, InstrSymbol = exampleKernel,
            InstrSize = 4\<rparr>,
           \<lparr>Inst = s_endpgm, LoadedDeviceAddress = 0x1008, InstrSymbol = exampleKernel,
            InstrSize = 4\<rparr>] \<and>
   fst (disassemble failingServices exampleKernel
          (performCalls [Disassemble failingServices (exampleKernel\<lparr>BackingLCO := 2\<rparr>)]
             (snd (disassemble exampleServices exampleKernel emptyLifter)))) =
     fst (disassemble exampleServices exampleKernel emptyLifter) \<and>
   fst (lift exampleServices (\<lambda>K. []) (\<lambda>K rs. Inr (length rs)) exampleKernel emptyLifter) = Inr 1 \<and>
   fst (lift failingServices (\<lambda>K. []) (\<lambda>K rs. Inl LiftError) exampleKernel
          (performCalls [Disassemble failingServices (exampleKernel\<lparr>BackingLCO := 2\<rparr>)]
             (snd (lift exampleServices (\<lambda>K. []) (\<lambda>K rs. Inr (length rs)) exampleKernel
                emptyLifter)))) = Inr 1"
proof -
  let ?d = "disassemble exampleServices exampleKernel emptyLifter"
  let ?l = "lift exampleServices (\<lambda>K. []) (\<lambda>K rs. Inr (length rs)) exampleKernel emptyLifter"
  let ?cs = "[Disassemble failingServices (exampleKernel\<lparr>BackingLCO := 2\<rparr>)]"
  have e: "find_symbol (LiftedKernelSymbols emptyLifter) exampleKernel = None"
    by (simp add: emptyLifter_def)
  have l: "fst ?l = Inr 1"
    by (simp add: lift_def e example_disassemble Let_def emplace_def contains_def
        symbol_eq_clone symbol_eq_refl)
  then have l': "?l = (Inr 1, snd ?l)"
    by (metis prod.collapse)
  have d': "?d = (fst ?d, snd ?d)"
    by simp
  from disassemble_and_lift_return_cached_result
    [of exampleServices exampleKernel emptyLifter _ "snd ?d" failingServices ?cs
      exampleServices "\<lambda>K. []" "\<lambda>K rs. Inr (length rs)" exampleKernel emptyLifter 1 "snd ?l"
      failingServices "\<lambda>K. []" "\<lambda>K rs. Inl LiftError" ?cs]
  show ?thesis
    using l l' by (simp add: example_disassemble)
qed

section \<open>Properties of cache invalidation\<close>

lemma find_symbol_filter_none:
  "(\<And>k. symbol_eq k S \<Longrightarrow> \<not> keep k) \<Longrightarrow>
   find_symbol (filter (\<lambda>(k, v). keep k) m) S = None"
  by (induction m) auto

lemma symbol_eq_BackingLCO: "symbol_eq k S \<Longrightarrow> BackingLCO k = BackingLCO S"
  by (simp add: symbol_eq_fields)

lemma disassemble_cache_miss:
  assumes "find_symbol (MCDisassembledSymbols this) S = None"
    and "getAssociatedObjectFile sv (BackingLCO S) = Inl e"
  shows "disassemble sv S this = (Inl e, this)"
  using assms by (simp add: disassemble_def contains_def Let_def)

lemma lift_cache_miss:
  assumes "find_symbol (LiftedKernelSymbols this) K = None"
    and "find_symbol (MCDisassembledSymbols this) K = None"
    and "getAssociatedObjectFile sv (BackingLCO K) = Inl e"
  shows "lift sv df build K this = (Inl e, this)"
  using assms by (simp add: lift_def disassemble_cache_miss)

text \<open>
  C3. After the executable-destroy callback for an executable, every loaded code
  object of the executable is no longer cached and both cache queries for it
  fail with a cache miss; no disassembly entry and no lifted representation is
  left for any symbol of such a code object, no entry of either cache names a
  symbol of the executable, and a later \<open>disassemble\<close> or \<open>lift\<close> of such a
  symbol fails with the cache miss and leaves the lifter as it is.
\<close>

theorem executable_destroy_invalidates_caches:
  "executableOf LCO = E \<longrightarrow>
     \<not> isCached (CodeObjectCache (executableDestroyCallback executableOf E core)) LCO \<and>
     getAssociatedCodeObject (CodeObjectCache (executableDestroyCallback executableOf E core)) LCO
       = Inl CacheMiss \<and>
     LoadedCodeObjectCache_getAssociatedObjectFile
       (CodeObjectCache (executableDestroyCallback executableOf E core)) LCO = Inl CacheMiss \<and>
     DirectBranchTargetLocations (Lifter (executableDestroyCallback executableOf E core)) LCO
       = None \<and>
     (\<forall>(k, v) \<in> set (MCDisassembledSymbols (Lifter (executableDestroyCallback executableOf E core))).
        executableOf (BackingLCO k) \<noteq> E) \<and>
     (\<forall>(k, v) \<in> set (LiftedKernelSymbols (Lifter (executableDestroyCallback executableOf E core))).
        executableOf (BackingLCO k) \<noteq> E) \<and>
     (\<forall>S. BackingLCO S = LCO \<longrightarrow>
        find_symbol (MCDisassembledSymbols (Lifter (executableDestroyCallback executableOf E core))) S
          = None \<and>
        find_symbol (LiftedKernelSymbols (Lifter (executableDestroyCallback executableOf E core))) S
          = None \<and>
        disassemble (withCache sv (CodeObjectCache (executableDestroyCallback executableOf E core)))
            S (Lifter (executableDestroyCallback executableOf E core))
          = (Inl CacheMiss, Lifter (executableDestroyCallback executableOf E core)) \<and>
        lift (withCache sv (CodeObjectCache (executableDestroyCallback executableOf E core)))
            df build S (Lifter (executableDestroyCallback executableOf E core))
          = (Inl CacheMiss, Lifter (executableDestroyCallback executableOf E core)))"
proof (intro impI)
  assume E: "executableOf LCO = E"
  let ?core = "executableDestroyCallback executableOf E core"
  let ?coc = "CodeObjectCache ?core"
  let ?cl = "Lifter ?core"
  have none: "LCOCache ?coc LCO = None"
    using E by (simp add: executableDestroyCallback_def hsaExecutableDestroyWrapper_def)
  have miss: "LoadedCodeObjectCache_getAssociatedObjectFile ?coc LCO = Inl CacheMiss"
    using none by (simp add: LoadedCodeObjectCache_getAssociatedObjectFile_def)
  have d: "MCDisassembledSymbols ?cl =
      filter (\<lambda>(k, v). executableOf (BackingLCO k) \<noteq> E) (MCDisassembledSymbols (Lifter core))"
    and l: "LiftedKernelSymbols ?cl =
      filter (\<lambda>(k, v). executableOf (BackingLCO k) \<noteq> E) (LiftedKernelSymbols (Lifter core))"
    by (simp_all add: executableDestroyCallback_def invalidateCachedExecutableItems_def)
  have syms: "find_symbol (MCDisassembledSymbols ?cl) S = None \<and>
      find_symbol (LiftedKernelSymbols ?cl) S = None \<and>
      disassemble (withCache sv ?coc) S ?cl = (Inl CacheMiss, ?cl) \<and>
      lift (withCache sv ?coc) df build S ?cl = (Inl CacheMiss, ?cl)"
    if S: "BackingLCO S = LCO" for S
  proof -
    have k: "\<not> executableOf (BackingLCO k) \<noteq> E" if "symbol_eq k S" for k
      using that S E by (simp add: symbol_eq_BackingLCO)
    have f1: "find_symbol (MCDisassembledSymbols ?cl) S = None"
      unfolding d by (rule find_symbol_filter_none) (rule k)
    have f2: "find_symbol (LiftedKernelSymbols ?cl) S = None"
      unfolding l by (rule find_symbol_filter_none) (rule k)
    have g: "getAssociatedObjectFile (withCache sv ?coc) (BackingLCO S) = Inl CacheMiss"
      using miss S by (simp add: withCache_def)
    show ?thesis
      using f1 f2 disassemble_cache_miss [OF f1 g] lift_cache_miss [OF f2 f1 g] by simp
  qed
  show "\<not> isCached ?coc LCO \<and>
     getAssociatedCodeObject ?coc LCO = Inl CacheMiss \<and>
     LoadedCodeObjectCache_getAssociatedObjectFile ?coc LCO = Inl CacheMiss \<and>
     DirectBranchTargetLocations ?cl LCO = None \<and>
     (\<forall>(k, v) \<in> set (MCDisassembledSymbols ?cl). executableOf (BackingLCO k) \<noteq> E) \<and>
     (\<forall>(k, v) \<in> set (LiftedKernelSymbols ?cl). executableOf (BackingLCO k) \<noteq> E) \<and>
     (\<forall>S. BackingLCO S = LCO \<longrightarrow>
        find_symbol (MCDisassembledSymbols ?cl) S = None \<and>
        find_symbol (LiftedKernelSymbols ?cl) S = None \<and>
        disassemble (withCache sv ?coc) S ?cl = (Inl CacheMiss, ?cl) \<and>
        lift (withCache sv ?coc) df build S ?cl = (Inl CacheMiss, ?cl))"
  proof (intro conjI allI impI)
    show "\<not> isCached ?coc LCO"
      using none by (simp add: isCached_def)
    show "getAssociatedCodeObject ?coc LCO = Inl CacheMiss"
      using none by (simp add: getAssociatedCodeObject_def)
    show "LoadedCodeObjectCache_getAssociatedObjectFile ?coc LCO = Inl CacheMiss"
      by (rule miss)
    show "DirectBranchTargetLocations ?cl LCO = None"
      using E by (simp add: executableDestroyCallback_def invalidateCachedExecutableItems_def)
    show "\<forall>(k, v) \<in> set (MCDisassembledSymbols ?cl). executableOf (BackingLCO k) \<noteq> E"
      unfolding d by auto
    show "\<forall>(k, v) \<in> set (LiftedKernelSymbols ?cl). executableOf (BackingLCO k) \<noteq> E"
      unfolding l by auto
  qed (simp_all add: syms)
qed

theorem executable_destroy_invalidates_caches_witness:
  "exampleExecutableOf 1 = 10 \<and>
   isCached (CodeObjectCache exampleCore) 1 \<and>
   contains (MCDisassembledSymbols (Lifter exampleCore)) exampleKernel \<and>
   \<not> isCached (CodeObjectCache (executableDestroyCallback exampleExecutableOf 10 exampleCore)) 1 \<and>
   isCached (CodeObjectCache (executableDestroyCallback exampleExecutableOf 10 exampleCore)) 2 \<and>
   MCDisassembledSymbols (Lifter (executableDestroyCallback exampleExecutableOf 10 exampleCore))
     = [] \<and>
   fst (disassemble
          (withCache exampleServices
             (CodeObjectCache (executableDestroyCallback exampleExecutableOf 10 exampleCore)))
          exampleKernel
          (Lifter (executableDestroyCallback exampleExecutableOf 10 exampleCore)))
     = Inl CacheMiss \<and>
   fst (lift
          (withCache exampleServices
             (CodeObjectCache (executableDestroyCallback exampleExecutableOf 10 exampleCore)))
          (\<lambda>K. []) (\<lambda>K rs. Inr (length rs)) exampleKernel
          (Lifter (executableDestroyCallback exampleExecutableOf 10 exampleCore)))
     = Inl CacheMiss"
proof -
  have e: "exampleExecutableOf 1 = 10"
    by (simp add: exampleExecutableOf_def)
  have l: "BackingLCO exampleKernel = 1"
    by (simp add: exampleKernel_def)
  have c: "isCached (CodeObjectCache exampleCore) 1"
    by (simp add: isCached_def exampleCore_def)
  have d: "contains (MCDisassembledSymbols (Lifter exampleCore)) exampleKernel"
    by (simp add: exampleCore_def example_disassemble contains_def symbol_eq_refl)
  have c2: "isCached (CodeObjectCache (executableDestroyCallback exampleExecutableOf 10 exampleCore)) 2"
    by (simp add: isCached_def exampleCore_def executableDestroyCallback_def
        hsaExecutableDestroyWrapper_def exampleExecutableOf_def)
  have m: "MCDisassembledSymbols
      (Lifter (executableDestroyCallback exampleExecutableOf 10 exampleCore)) = []"
    by (simp add: exampleCore_def example_disassemble executableDestroyCallback_def
        invalidateCachedExecutableItems_def exampleExecutableOf_def l)
  from executable_destroy_invalidates_caches
    [of exampleExecutableOf 1 10 exampleCore exampleServices "\<lambda>K. []" "\<lambda>K rs. Inr (length rs)"]
  show ?thesis
    using e l c d c2 m by simp
qed

section \<open>Properties of instrumentation tasks\<close>

lemma insertCallBefore_absent:
  "Original MI \<notin> set body \<Longrightarrow> insertCallBefore MI d body = body"
  by (induction body) auto

lemma materialiseQueue_absent:
  "Original MI \<notin> set body \<Longrightarrow> materialiseQueue MI q body = body"
  unfolding materialiseQueue_def
  by (induction q) (simp_all add: insertCallBefore_absent)

lemma insertCallBefore_at:
  "Original MI \<notin> set pre \<Longrightarrow>
   insertCallBefore MI d (pre @ Original MI # post) = pre @ HookCall d # Original MI # post"
  by (induction pre) auto

lemma materialiseQueue_at:
  "Original MI \<notin> set pre \<Longrightarrow>
   materialiseQueue MI q (pre @ Original MI # post) =
     pre @ map HookCall q @ Original MI # post"
  unfolding materialiseQueue_def
proof (induction q arbitrary: pre)
  case Nil
  then show ?case by simp
next
  case (Cons d q)
  have "Original MI \<notin> set (pre @ [HookCall d])"
    using Cons.prems by simp
  from Cons.IH [OF this] show ?case
    using Cons.prems by (simp add: insertCallBefore_at)
qed

lemma materialiseQueue_skip:
  "x \<noteq> Original MI \<Longrightarrow> materialiseQueue MI q (x # body) = x # materialiseQueue MI q body"
  unfolding materialiseQueue_def
  by (induction q arbitrary: body) simp_all

lemma withCallsBefore_id:
  "(\<And>m. Original m \<in> set body \<Longrightarrow> Q m = []) \<Longrightarrow> withCallsBefore Q body = body"
  by (induction Q body rule: withCallsBefore.induct) auto

lemma materialiseQueue_withCallsBefore:
  "distinct body \<Longrightarrow>
   materialiseQueue MI q body = withCallsBefore (\<lambda>m. if m = MI then q else []) body"
proof (induction body)
  case Nil
  then show ?case by (simp add: materialiseQueue_absent)
next
  case (Cons x body)
  show ?case
  proof (cases "x = Original MI")
    case True
    then have a: "Original MI \<notin> set body"
      using Cons.prems by simp
    have "materialiseQueue MI q (Original MI # body) = map HookCall q @ Original MI # body"
      using materialiseQueue_at [of MI "[]" q body] by simp
    moreover have "withCallsBefore (\<lambda>m. if m = MI then q else []) body = body"
      using a by (intro withCallsBefore_id) auto
    ultimately show ?thesis
      using True by simp
  next
    case False
    then have "materialiseQueue MI q (x # body) = x # materialiseQueue MI q body"
      by (rule materialiseQueue_skip)
    then show ?thesis
      using False Cons by (cases x) auto
  qed
qed

lemma set_withCallsBefore_Original:
  "Original m \<in> set (withCallsBefore Q body) \<longleftrightarrow> Original m \<in> set body"
  by (induction Q body rule: withCallsBefore.induct) auto

lemma withCallsBefore_calls:
  "withCallsBefore Q (map HookCall ds @ rest) = map HookCall ds @ withCallsBefore Q rest"
  by (induction ds) simp_all

lemma materialiseQueue_calls:
  "materialiseQueue MI q (map HookCall ds @ rest) = map HookCall ds @ materialiseQueue MI q rest"
  by (induction ds) (simp_all add: materialiseQueue_skip)

lemma materialiseQueue_after_calls:
  assumes "distinct body" and "Q MI = []"
  shows "materialiseQueue MI q (withCallsBefore Q body) =
         withCallsBefore (\<lambda>m. if m = MI then q else Q m) body"
  using assms
proof (induction body)
  case Nil
  then show ?case by (simp add: materialiseQueue_absent)
next
  case (Cons x body)
  show ?case
  proof (cases x)
    case (HookCall d)
    then have "materialiseQueue MI q (withCallsBefore Q (x # body)) =
        x # materialiseQueue MI q (withCallsBefore Q body)"
      by (simp add: materialiseQueue_skip)
    then show ?thesis
      using HookCall Cons by simp
  next
    case (Original m)
    show ?thesis
    proof (cases "m = MI")
      case True
      have a: "Original MI \<notin> set body"
        using Cons.prems Original True by simp
      then have b: "Original MI \<notin> set (withCallsBefore Q body)"
        by (simp add: set_withCallsBefore_Original)
      have "materialiseQueue MI q (Original MI # withCallsBefore Q body) =
          map HookCall q @ Original MI # withCallsBefore Q body"
        using materialiseQueue_at [of MI "[]" q "withCallsBefore Q body"] by simp
      moreover have "withCallsBefore (\<lambda>m. if m = MI then q else Q m) body =
          withCallsBefore Q body"
        using a
      proof (induction body)
        case Nil
        then show ?case by simp
      next
        case (Cons y ys)
        then show ?case by (cases y) auto
      qed
      ultimately show ?thesis
        using Original True Cons.prems by simp
    next
      case False
      have "materialiseQueue MI q (withCallsBefore Q (Original m # body)) =
          map HookCall (Q m) @ Original m # materialiseQueue MI q (withCallsBefore Q body)"
        using False by (simp add: materialiseQueue_skip materialiseQueue_calls)
      then show ?thesis
        using Original False Cons by simp
    qed
  qed
qed

lemma materialiseHooks_fold:
  assumes "distinct body" and "distinct order" and "\<And>m. m \<in> set order \<Longrightarrow> Q m = []"
  shows "fold (\<lambda>MI. materialiseQueue MI (queueOf tasks MI)) order (withCallsBefore Q body) =
         withCallsBefore (\<lambda>m. if m \<in> set order then queueOf tasks m else Q m) body"
  using assms(2,3)
proof (induction order arbitrary: Q)
  case Nil
  then show ?case by simp
next
  case (Cons k ks)
  let ?Q = "\<lambda>m. if m = k then queueOf tasks k else Q m"
  have step: "materialiseQueue k (queueOf tasks k) (withCallsBefore Q body) =
      withCallsBefore ?Q body"
    using assms(1) Cons.prems(2) [of k] by (simp add: materialiseQueue_after_calls)
  have "fold (\<lambda>MI. materialiseQueue MI (queueOf tasks MI)) ks (withCallsBefore ?Q body) =
      withCallsBefore (\<lambda>m. if m \<in> set ks then queueOf tasks m else ?Q m) body"
    using Cons.prems by (intro Cons.IH) auto
  moreover have "(\<lambda>m. if m \<in> set ks then queueOf tasks m else ?Q m) =
      (\<lambda>m. if m \<in> set (k # ks) then queueOf tasks m else Q m)"
    by auto
  ultimately show ?case
    using step by simp
qed

lemma withCallsBefore_originals:
  "withCallsBefore Q (map Original mis) =
     concat (map (\<lambda>m. map HookCall (Q m) @ [Original m]) mis)"
  by (induction mis) simp_all

lemma materialiseHooks_originals:
  assumes "distinct mis" and "distinct order" and "set order = dom tasks"
  shows "materialiseHooks order tasks (map Original mis) =
         concat (map (\<lambda>m. map HookCall (queueOf tasks m) @ [Original m]) mis)"
proof -
  have d: "distinct (map Original mis)"
    using assms(1) by (simp add: distinct_map inj_on_def)
  have b: "withCallsBefore (\<lambda>m. []) (map Original mis) = map Original mis"
    by (intro withCallsBefore_id) simp
  have q: "(\<lambda>m. if m \<in> set order then queueOf tasks m else []) = queueOf tasks"
    using assms(3) by (auto simp: queueOf_def fun_eq_iff split: option.splits)
  have "materialiseHooks order tasks (map Original mis) =
      fold (\<lambda>MI. materialiseQueue MI (queueOf tasks MI)) order
        (withCallsBefore (\<lambda>m. []) (map Original mis))"
    by (simp add: materialiseHooks_def queueOf_def b)
  also have "\<dots> = withCallsBefore (\<lambda>m. if m \<in> set order then queueOf tasks m else [])
      (map Original mis)"
    using d assms(2) by (intro materialiseHooks_fold) simp_all
  finally show ?thesis
    by (simp add: q withCallsBefore_originals)
qed

lemma insertHookBefore_success:
  assumes "insertHookBefore MI Hook HookArgs this = (Inr u, this')"
  shows "MI \<in> LR this \<and>
     (\<exists>Name. IM this Hook = Some Name \<and>
        queueOf (HookInsertionTasks this') MI =
          queueOf (HookInsertionTasks this) MI @ [\<lparr>HookName = Name, Args = HookArgs\<rparr>]) \<and>
     (\<forall>MI'. MI' \<noteq> MI \<longrightarrow>
        queueOf (HookInsertionTasks this') MI' = queueOf (HookInsertionTasks this) MI') \<and>
     LR this' = LR this \<and> IM this' = IM this"
  using assms
  by (auto simp: insertHookBefore_def queueOf_def split: if_splits option.splits)

text \<open>
  C5. A successful \<^verbatim>\<open>insertHookBefore\<close> appends one descriptor, with the name the
  instrumentation module gives for the hook handle, to the queue of its machine
  instruction and leaves the queues of the other instructions as they are.
  Materialising the queued insertions over the original instructions puts, in
  front of each instruction, the calls of its queue in the order in which they
  were queued, all after the preceding original instruction; nothing is placed
  after the last instruction. \<^verbatim>\<open>insertHookBefore\<close> is the only operation of the
  task that changes it.
\<close>

theorem hooks_materialised_in_enqueue_order:
  "(insertHookBefore MI Hook HookArgs this = (Inr u, this') \<longrightarrow>
      (\<exists>Name. IM this Hook = Some Name \<and>
         queueOf (HookInsertionTasks this') MI =
           queueOf (HookInsertionTasks this) MI @ [\<lparr>HookName = Name, Args = HookArgs\<rparr>]) \<and>
      (\<forall>MI'. MI' \<noteq> MI \<longrightarrow>
         queueOf (HookInsertionTasks this') MI' = queueOf (HookInsertionTasks this) MI')) \<and>
   (distinct mis \<and> distinct order \<and> set order = dom tasks \<longrightarrow>
      materialiseHooks order tasks (map Original mis) =
        concat (map (\<lambda>m. map HookCall (queueOf tasks m) @ [Original m]) mis))"
  using insertHookBefore_success [of MI Hook HookArgs this u this']
    materialiseHooks_originals [of mis order tasks]
  by blast

theorem hooks_materialised_in_enqueue_order_witness:
  "insertHookBefore 101 0xA [ConstantArg 42] exampleTask =
     (Inr (), exampleTask\<lparr>HookInsertionTasks :=
        [101 \<mapsto> [\<lparr>HookName = ''h1'', Args = [ConstantArg 42]\<rparr>]]\<rparr>) \<and>
   queueOf (HookInsertionTasks
     (snd (insertHookBefore 101 0xB [RegisterArg 4]
        (exampleTask\<lparr>HookInsertionTasks :=
           [101 \<mapsto> [\<lparr>HookName = ''h1'', Args = [ConstantArg 42]\<rparr>]]\<rparr>)))) 101 =
     [\<lparr>HookName = ''h1'', Args = [ConstantArg 42]\<rparr>, \<lparr>HookName = ''h2'', Args = [RegisterArg 4]\<rparr>] \<and>
   materialiseHooks [101, 100]
       [101 \<mapsto> [\<lparr>HookName = ''h1'', Args = [ConstantArg 42]\<rparr>,
               \<lparr>HookName = ''h2'', Args = [RegisterArg 4]\<rparr>],
        100 \<mapsto> [\<lparr>HookName = ''h2'', Args = []\<rparr>]]
       (map Original [100, 101]) =
     [HookCall \<lparr>HookName = ''h2'', Args = []\<rparr>, Original 100,
      HookCall \<lparr>HookName = ''h1'', Args = [ConstantArg 42]\<rparr>,
      HookCall \<lparr>HookName = ''h2'', Args = [RegisterArg 4]\<rparr>, Original 101]"
proof -
  let ?d1 = "\<lparr>HookName = ''h1'', Args = [ConstantArg 42]\<rparr>"
  let ?d2 = "\<lparr>HookName = ''h2'', Args = [RegisterArg 4]\<rparr>"
  let ?d3 = "\<lparr>HookName = ''h2'', Args = []\<rparr>"
  let ?t1 = "exampleTask\<lparr>HookInsertionTasks := [101 \<mapsto> [?d1]]\<rparr>"
  let ?tasks = "[101 \<mapsto> [?d1, ?d2], 100 \<mapsto> [?d3]] :: hook_insertion_tasks"
  have a: "insertHookBefore 101 0xA [ConstantArg 42] exampleTask = (Inr (), ?t1)"
    by (simp add: insertHookBefore_def exampleTask_def)
  have b: "insertHookBefore 101 0xB [RegisterArg 4] ?t1 =
      (Inr (), snd (insertHookBefore 101 0xB [RegisterArg 4] ?t1))"
    by (simp add: insertHookBefore_def exampleTask_def)
  have q1: "queueOf (HookInsertionTasks ?t1) 101 = [?d1]"
    by (simp add: queueOf_def)
  have im: "IM ?t1 0xB = Some ''h2''"
    by (simp add: exampleTask_def)
  have o: "distinct [100 :: MachineInstr, 101] \<and> distinct [101 :: MachineInstr, 100] \<and>
      set [101, 100] = dom ?tasks"
    by auto
  have m: "materialiseHooks [101, 100] ?tasks (map Original [100, 101]) =
      concat (map (\<lambda>m. map HookCall (queueOf ?tasks m) @ [Original m]) [100, 101])"
    using hooks_materialised_in_enqueue_order
      [of 101 "0xB" "[RegisterArg 4]" ?t1 "()"
        "snd (insertHookBefore 101 0xB [RegisterArg 4] ?t1)" "[100, 101]" "[101, 100]" ?tasks] o
    by blast
  have q2: "queueOf (HookInsertionTasks (snd (insertHookBefore 101 0xB [RegisterArg 4] ?t1))) 101 =
      [?d1, ?d2]"
    using hooks_materialised_in_enqueue_order
      [of 101 "0xB" "[RegisterArg 4]" ?t1 "()"
        "snd (insertHookBefore 101 0xB [RegisterArg 4] ?t1)" "[100, 101]" "[101, 100]" ?tasks]
      b q1 im
    by auto
  show ?thesis
    using a q2 m by (simp add: queueOf_def)
qed

end
